theory Spec2Isabelle
  imports Complex_Main "HOL-Library.Multiset" "HOL-Library.Sublist" "HOL-Library.Word"
begin

section \<open>Python values shared by the modules\<close>

text \<open>
  The exceptions the modelled code can meet. \<open>ServiceError\<close> stands for whatever
  exception of class \<open>Exception\<close> an external collaborator (the generative service, the
  embedding service, the vector index backend) raises. The last three are not subclasses
  of \<open>Exception\<close>: they derive from \<open>BaseException\<close> directly, and a handler
  \<open>except Exception\<close> does not catch them.
\<close>

datatype py_exception =
    KeyError | IndexError | TypeError | ValueError | ZeroDivisionError | SyntaxError | ServiceError
  | KeyboardInterrupt | SystemExit | CancelledError

fun is_Exception :: "py_exception \<Rightarrow> bool" where
  "is_Exception KeyboardInterrupt = False"
| "is_Exception SystemExit = False"
| "is_Exception CancelledError = False"
| "is_Exception e = True"

text \<open>
  The statement \<open>try: body except Exception as e: handler\<close>, as every handler of the
  repository is written: an exception of class \<open>Exception\<close> goes to the handler, any
  other exception leaves the statement as it came.
\<close>

definition except_Exception ::
  "py_exception + 'a \<Rightarrow> (py_exception \<Rightarrow> py_exception + 'a) \<Rightarrow> py_exception + 'a" where
  "except_Exception body handler =
     (case body of
        Inl e \<Rightarrow> if is_Exception e then handler e else Inl e
      | Inr x \<Rightarrow> Inr x)"

text \<open>The slice \<open>xs[:k]\<close>: a negative \<open>k\<close> counts from the end, and the bounds are clipped.\<close>

definition py_slice_to :: "'a list \<Rightarrow> int \<Rightarrow> 'a list" where
  "py_slice_to xs k = (if k < 0 then take (nat (int (length xs) + k)) xs else take (nat k) xs)"

text \<open>
  True division \<open>a / b\<close> of two integers. The quotient is modelled as the exact real
  number; Python returns the double nearest to it.
\<close>

definition py_truediv :: "int \<Rightarrow> int \<Rightarrow> py_exception + real" where
  "py_truediv a b = (if b = 0 then Inl ZeroDivisionError else Inr (real_of_int a / real_of_int b))"

section \<open>evaluation.py\<close>

text \<open>
  \<open>EvaluationMetrics.calculate_recall_at_k\<close>: an empty \<open>relevant\<close> returns \<open>0.0\<close>
  at once; otherwise the predictions among the first \<open>k\<close> that occur in \<open>relevant\<close> are
  counted and the count is divided by \<open>len(relevant)\<close>.
\<close>

definition calculate_recall_at_k :: "'a list \<Rightarrow> 'a list \<Rightarrow> int \<Rightarrow> py_exception + real" where
  "calculate_recall_at_k predicted relevant k =
     (if relevant = [] then Inr 0
      else
        let predicted_k = py_slice_to predicted k;
            relevant_in_k = length (filter (\<lambda>url. url \<in> set relevant) predicted_k)
        in py_truediv (int relevant_in_k) (int (length relevant)))"

section \<open>Strings\<close>

text \<open>
  A Python \<open>str\<close> is modelled as a list of \<open>char\<close>, read as the code points 0 to 255
  (Latin-1). The string methods below follow Python on that range.
\<close>

definition newline :: char where
  "newline = CHR 0x0A"

text \<open>\<open>str.isspace\<close> for one character: tab to carriage return, the four separators
  \<open>0x1c\<close> to \<open>0x1f\<close>, the space, next-line and the no-break space.\<close>

definition py_isspace :: "char \<Rightarrow> bool" where
  "py_isspace c =
     (let n = (of_char c :: nat)
      in (9 \<le> n \<and> n \<le> 13) \<or> (28 \<le> n \<and> n \<le> 32) \<or> n = 133 \<or> n = 160)"

definition py_strip :: "string \<Rightarrow> string" where
  "py_strip s = rev (dropWhile py_isspace (rev (dropWhile py_isspace s)))"

definition py_lower_char :: "char \<Rightarrow> char" where
  "py_lower_char c =
     (let n = (of_char c :: nat)
      in if (65 \<le> n \<and> n \<le> 90) \<or> (192 \<le> n \<and> n \<le> 222 \<and> n \<noteq> 215)
         then char_of (n + 32) else c)"

definition py_lower :: "string \<Rightarrow> string" where
  "py_lower s = map py_lower_char s"

text \<open>\<open>s.split(sep)\<close> for a one-character separator: never an empty list, and an empty
  piece between two adjacent separators.\<close>

fun py_split :: "char \<Rightarrow> string \<Rightarrow> string list" where
  "py_split sep [] = [[]]"
| "py_split sep (c # cs) =
     (if c = sep then [] # py_split sep cs
      else (case py_split sep cs of
              [] \<Rightarrow> [[c]]
            | piece # pieces \<Rightarrow> (c # piece) # pieces))"

text \<open>\<open>sep.join(xs)\<close>.\<close>

fun py_join :: "string \<Rightarrow> string list \<Rightarrow> string" where
  "py_join sep [] = []"
| "py_join sep [x] = x"
| "py_join sep (x # y # ys) = x @ sep @ py_join sep (y # ys)"

text \<open>\<open>str(n)\<close> for an integer: decimal digits, with a minus sign when negative.\<close>

definition digit_char :: "nat \<Rightarrow> char" where
  "digit_char d = char_of (48 + d)"

fun nat_digits :: "nat \<Rightarrow> string" where
  "nat_digits n = (if n < 10 then [digit_char n] else nat_digits (n div 10) @ [digit_char (n mod 10)])"

definition py_str_int :: "int \<Rightarrow> string" where
  "py_str_int n = (if n < 0 then CHR ''-'' # nat_digits (nat (- n)) else nat_digits (nat n))"

definition is_digit :: "char \<Rightarrow> bool" where
  "is_digit c = (let n = (of_char c :: nat) in 48 \<le> n \<and> n \<le> 57)"

text \<open>
  \<open>int(ds)\<close> for a run of decimal digits. Python refuses to convert a text of more
  digits than \<open>sys.get_int_max_str_digits()\<close>, 4300 unless configured otherwise, and
  raises \<open>ValueError\<close>; leading zeros count as digits.
\<close>

definition digits_value :: "string \<Rightarrow> int" where
  "digits_value ds = foldl (\<lambda>acc c. 10 * acc + (int (of_char c) - 48)) 0 ds"

definition int_max_str_digits :: nat where
  "int_max_str_digits = 4300"

text \<open>Subscription \<open>d[key]\<close> of a dict whose key may be absent.\<close>

definition getitem :: "'a option \<Rightarrow> py_exception + 'a" where
  "getitem v = (case v of None \<Rightarrow> Inl KeyError | Some x \<Rightarrow> Inr x)"

text \<open>Sequencing of two steps either of which may raise.\<close>

definition py_bind :: "py_exception + 'a \<Rightarrow> ('a \<Rightarrow> py_exception + 'b) \<Rightarrow> py_exception + 'b" where
  "py_bind m f = (case m of Inl e \<Rightarrow> Inl e | Inr x \<Rightarrow> f x)"

definition py_int :: "string \<Rightarrow> py_exception + int" where
  "py_int ds = (if length ds > int_max_str_digits then Inl ValueError else Inr (digits_value ds))"

text \<open>\<open>re.findall(r'\d+', s)\<close>: the maximal runs of digits, left to right. The first
  argument is the run being read.\<close>

fun findall_digits :: "string \<Rightarrow> string \<Rightarrow> string list" where
  "findall_digits run [] = (if run = [] then [] else [run])"
| "findall_digits run (c # cs) =
     (if is_digit c then findall_digits (run @ [c]) cs
      else (if run = [] then [] else [run]) @ findall_digits [] cs)"

section \<open>embeddings.py\<close>

text \<open>
  \<open>GeminiEmbeddings._simple_embedding\<close>. The digest \<open>hashlib.sha256(text.encode()).digest()\<close>
  is library code: it is the parameter \<open>sha256\<close>, a function from the text to its bytes.
  Each float \<open>(b % 100) / 100.0\<close> is modelled as the exact quotient.

  The \<open>while\<close> loop has no bound of its own (it would not end on an empty vector), so
  it is a partial function: \<open>None\<close> is the loop that never returns.
\<close>

partial_function (option) extend_vector :: "real list \<Rightarrow> real list option" where
  "extend_vector vector =
     (if length vector < 384
      then extend_vector (vector @ take (min (384 - length vector) (length vector)) vector)
      else Some vector)"

declare extend_vector.simps [code]

definition byte_floats :: "8 word list \<Rightarrow> real list" where
  "byte_floats text_hash = map (\<lambda>b. real (unat b mod 100) / 100) text_hash"

definition simple_embedding :: "(string \<Rightarrow> 8 word list) \<Rightarrow> string \<Rightarrow> real list option" where
  "simple_embedding sha256 text =
     map_option (take 384) (extend_vector (byte_floats (sha256 text)))"

text \<open>The SHA-256 digest of the text \<open>abc\<close>, used as a concrete digest in examples.\<close>

definition sha256_abc :: "8 word list" where
  "sha256_abc =
     [0xba, 0x78, 0x16, 0xbf, 0x8f, 0x01, 0xcf, 0xea, 0x41, 0x41, 0x40, 0xde, 0x5d, 0xae, 0x22, 0x23,
      0xb0, 0x03, 0x61, 0xa3, 0x96, 0x17, 0x7a, 0x9c, 0xb4, 0x10, 0xff, 0x61, 0xf2, 0x00, 0x15, 0xad]"

section \<open>The assessment dictionaries\<close>

text \<open>
  The catalog entries, the search results and the recommendations are Python dicts over
  the same keys. A key may be absent (\<open>None\<close>): \<open>d[key]\<close> then raises \<open>KeyError\<close> and
  \<open>d.get(key)\<close> gives Python's \<open>None\<close>. The value under \<open>duration\<close> is an integer in a
  catalog entry and a string in a search result, and the value under \<open>test_type\<close> is what
  the decoding of the stored string returned, so both types are parameters.
\<close>

record ('d, 't) assessment =
  name :: "string option"
  url :: "string option"
  description :: "string option"
  duration :: "'d option"
  test_type :: "'t option"
  adaptive_support :: "string option"
  remote_support :: "string option"
  distance :: "real option"

text \<open>The result of \<open>_analyze_query\<close>; both of its return statements set all four keys.\<close>

record query_analysis =
  skills :: "string list"
  test_types :: "string list"
  experience_level :: string
  focus_areas :: "string list"

section \<open>rag_pipeline.py\<close>

subsection \<open>Skill and focus extraction\<close>

definition extract_skills :: "string \<Rightarrow> string list" where
  "extract_skills analysis =
     fold (\<lambda>line skills.
             if sublist ''skill'' line
             then (let parts = py_split CHR '':'' line
                   in if length parts > 1
                      then skills @ map py_strip (py_split CHR '','' (parts ! 1))
                      else skills)
             else skills)
          (py_split newline (py_lower analysis)) []"

definition extract_focus_areas :: "string \<Rightarrow> string list" where
  "extract_focus_areas analysis =
     fold (\<lambda>l focus.
             if sublist ''focus'' l
             then (let parts = py_split CHR '':'' l
                   in if length parts > 1
                      then focus @ map py_strip (py_split CHR '','' (parts ! 1))
                      else focus)
             else focus)
          (py_split newline (py_lower analysis)) []"

subsection \<open>Re-ranking\<close>

text \<open>\<open>_parse_rankings\<close>: every run of digits, read as a 1-based index and made 0-based.
  The conversion of a run raises \<open>ValueError\<close> when the run is too long.\<close>

fun rankings_of :: "string list \<Rightarrow> py_exception + int list" where
  "rankings_of [] = Inr []"
| "rankings_of (n # nums) =
     py_bind (py_int n) (\<lambda>v.
     py_bind (rankings_of nums) (\<lambda>rest.
       Inr ((v - 1) # rest)))"

definition parse_rankings :: "string \<Rightarrow> py_exception + int list" where
  "parse_rankings response = rankings_of (findall_digits [] response)"

text \<open>The numbered summary lines of the candidates; \<open>c['name']\<close> and \<open>c['description']\<close>
  raise \<open>KeyError\<close> on a candidate without the key.\<close>

fun summary_lines :: "nat \<Rightarrow> ('d, 't) assessment list \<Rightarrow> py_exception + string list" where
  "summary_lines i [] = Inr []"
| "summary_lines i (c # cs) =
     py_bind (getitem (name c)) (\<lambda>c_name.
     py_bind (getitem (description c)) (\<lambda>c_description.
     py_bind (summary_lines (Suc i) cs) (\<lambda>rest.
       Inr ((py_str_int (int i + 1) @ ''. '' @ c_name @ '' - '' @ take 100 c_description @ ''...'')
            # rest))))"

definition rerank_prompt :: "int \<Rightarrow> string \<Rightarrow> string \<Rightarrow> string" where
  "rerank_prompt n_results query summary =
     ''Rank the top '' @ py_str_int n_results @ '' relevant assessments.'' @ [newline, newline]
     @ ''Query: '' @ query @ [newline, newline]
     @ ''Candidates:'' @ [newline] @ summary @ [newline, newline]
     @ ''Return only comma-separated ranking numbers.''"

text \<open>The second loop of \<open>_rerank_and_filter\<close>: the candidates whose index the ranking
  does not mention are appended while the list is shorter than \<open>n_results\<close>.\<close>

fun append_unranked :: "int list \<Rightarrow> int \<Rightarrow> (nat \<times> 'a) list \<Rightarrow> 'a list \<Rightarrow> 'a list" where
  "append_unranked rankings n_results [] reranked = reranked"
| "append_unranked rankings n_results ((i, c) # rest) reranked =
     append_unranked rankings n_results rest
       (if int i \<notin> set rankings \<and> int (length reranked) < n_results
        then reranked @ [c] else reranked)"

text \<open>
  The body of the \<open>try\<close> of \<open>_rerank_and_filter\<close>. The generative call is the parameter
  \<open>generate_text\<close>: it raises, or returns the \<open>text\<close> of the response (which may be
  Python's \<open>None\<close>). The analysis is an argument the method never reads.
\<close>

definition rerank_try ::
  "(string \<Rightarrow> py_exception + string option) \<Rightarrow> string \<Rightarrow> query_analysis
     \<Rightarrow> ('d, 't) assessment list \<Rightarrow> int \<Rightarrow> py_exception + ('d, 't) assessment list" where
  "rerank_try generate_text query analysis candidates n_results =
     py_bind (summary_lines 0 (py_slice_to candidates 15)) (\<lambda>lines.
     py_bind (generate_text (rerank_prompt n_results query (py_join [newline] lines))) (\<lambda>response_text.
     py_bind (parse_rankings (case response_text of None \<Rightarrow> [] | Some t \<Rightarrow> t)) (\<lambda>rankings.
       let reranked = map (\<lambda>r. candidates ! nat r)
                          (filter (\<lambda>r. 0 \<le> r \<and> r < int (length candidates)) rankings)
       in Inr (append_unranked rankings n_results (enumerate 0 candidates) reranked))))"

text \<open>The method: the body under its handler, which returns the candidates.\<close>

definition rerank_and_filter ::
  "(string \<Rightarrow> py_exception + string option) \<Rightarrow> string \<Rightarrow> query_analysis
     \<Rightarrow> ('d, 't) assessment list \<Rightarrow> int \<Rightarrow> py_exception + ('d, 't) assessment list" where
  "rerank_and_filter generate_text query analysis candidates n_results =
     except_Exception (rerank_try generate_text query analysis candidates n_results)
       (\<lambda>e. Inr candidates)"

subsection \<open>Diversity balancing\<close>

text \<open>\<open>by_type.setdefault(t, []).append(r)\<close>.\<close>

definition setdefault_append :: "('k \<rightharpoonup> 'v list) \<Rightarrow> 'k \<Rightarrow> 'v \<Rightarrow> ('k \<rightharpoonup> 'v list)" where
  "setdefault_append by_type t r =
     by_type(t \<mapsto> (case by_type t of None \<Rightarrow> [] | Some rs \<Rightarrow> rs) @ [r])"

text \<open>\<open>r.get('test_type', [])\<close>, and the dict \<open>by_type\<close>: for every category, the
  recommendations carrying it, in rank order.\<close>

definition get_test_type :: "('d, 'c list) assessment \<Rightarrow> 'c list" where
  "get_test_type r = (case test_type r of None \<Rightarrow> [] | Some ts \<Rightarrow> ts)"

definition group_by_type ::
  "('d, string list) assessment list \<Rightarrow> (string \<rightharpoonup> ('d, string list) assessment list)" where
  "group_by_type recs =
     fold (\<lambda>r by_type. fold (\<lambda>t m. setdefault_append m t r) (get_test_type r) by_type)
          recs Map.empty"

text \<open>The inner loop with its \<open>break\<close>: the first recommendation of the category whose
  \<open>r.get('url')\<close> is not in \<open>seen\<close>. A missing url is Python's \<open>None\<close>, a key like any other.\<close>

fun first_unseen :: "('d, 't) assessment list \<Rightarrow> string option set \<Rightarrow> ('d, 't) assessment option" where
  "first_unseen [] seen = None"
| "first_unseen (r # rs) seen = (if url r \<notin> seen then Some r else first_unseen rs seen)"

text \<open>The loop over the requested categories, on the pair \<open>(balanced, seen)\<close>.\<close>

fun pick_per_type ::
  "string list \<Rightarrow> (string \<rightharpoonup> ('d, 't) assessment list)
     \<Rightarrow> ('d, 't) assessment list \<times> string option set
     \<Rightarrow> ('d, 't) assessment list \<times> string option set" where
  "pick_per_type [] by_type (balanced, seen) = (balanced, seen)"
| "pick_per_type (t # ts) by_type (balanced, seen) =
     (case by_type t of
        None \<Rightarrow> pick_per_type ts by_type (balanced, seen)
      | Some rs \<Rightarrow>
          (case first_unseen rs seen of
             None \<Rightarrow> pick_per_type ts by_type (balanced, seen)
           | Some r \<Rightarrow> pick_per_type ts by_type (balanced @ [r], insert (url r) seen)))"

text \<open>The last loop: every recommendation whose url is not yet in \<open>seen\<close>, in rank order.\<close>

fun append_unseen ::
  "('d, 't) assessment list \<Rightarrow> ('d, 't) assessment list \<times> string option set
     \<Rightarrow> ('d, 't) assessment list \<times> string option set" where
  "append_unseen [] (balanced, seen) = (balanced, seen)"
| "append_unseen (r # rs) (balanced, seen) =
     (if url r \<notin> seen then append_unseen rs (balanced @ [r], insert (url r) seen)
      else append_unseen rs (balanced, seen))"

definition balance_recommendations ::
  "('d, string list) assessment list \<Rightarrow> query_analysis \<Rightarrow> ('d, string list) assessment list" where
  "balance_recommendations recs analysis =
     (let req_types = test_types analysis
      in if length req_types \<le> 1 then recs
         else fst (append_unseen recs (pick_per_type req_types (group_by_type recs) ([], {}))))"

text \<open>The state after the loop over the requested categories: the diversity picks.\<close>

definition diversity_picks ::
  "('d, string list) assessment list \<Rightarrow> string list \<Rightarrow> ('d, string list) assessment list" where
  "diversity_picks recs req_types = fst (pick_per_type req_types (group_by_type recs) ([], {}))"

subsection \<open>The extraction, a line at a time\<close>

text \<open>
  What one lower-cased line contributes, stated without the split on colons: a line
  that contains the keyword and a colon gives the comma-separated pieces of the text
  between its first colon and its next one, each piece trimmed; any other line gives
  nothing.
\<close>

definition line_tokens :: "string \<Rightarrow> string \<Rightarrow> string list" where
  "line_tokens keyword line =
     (if sublist keyword line \<and> CHR '':'' \<in> set line
      then map py_strip
             (py_split CHR '',''
                (takeWhile (\<lambda>c. c \<noteq> CHR '':'') (tl (dropWhile (\<lambda>c. c \<noteq> CHR '':'') line))))
      else [])"

subsection \<open>Example candidates\<close>

text \<open>Candidates in the shape \<open>search\<close> returns them, after the fallback catalog of the
  scraper, and the fallback analysis of \<open>_analyze_query\<close>, which requests two categories.\<close>

definition example_candidate ::
  "string \<Rightarrow> string option \<Rightarrow> string list option \<Rightarrow> (string, string list) assessment" where
  "example_candidate c_name c_url c_test_type =
     \<lparr>name = Some c_name, url = c_url, description = Some ''An assessment.'',
      duration = Some ''45'', test_type = c_test_type, adaptive_support = Some ''No'',
      remote_support = Some ''Yes'', distance = Some 0\<rparr>"

definition java_test :: "(string, string list) assessment" where
  "java_test = example_candidate ''Java Developer Assessment''
     (Some ''https://www.shl.com/solutions/products/product-catalog/view/java-programming/'')
     (Some [''Knowledge & Skills''])"

definition python_test :: "(string, string list) assessment" where
  "python_test = example_candidate ''Python Programming Test''
     (Some ''https://www.shl.com/solutions/products/product-catalog/view/python-programming/'')
     (Some [''Knowledge & Skills''])"

definition leadership_test :: "(string, string list) assessment" where
  "leadership_test = example_candidate ''Leadership & Collaboration Assessment''
     (Some ''https://www.shl.com/solutions/products/product-catalog/view/leadership-assessment/'')
     (Some [''Personality & Behavior''])"

text \<open>A candidate whose dict has no \<open>url\<close> key.\<close>

definition unlisted_test :: "(string, string list) assessment" where
  "unlisted_test = example_candidate ''Communication Skills Assessment'' None
     (Some [''Personality & Behavior''])"

definition fallback_analysis :: query_analysis where
  "fallback_analysis =
     \<lparr>skills = [], test_types = [''Knowledge & Skills'', ''Personality & Behavior''],
      experience_level = ''Mid'', focus_areas = []\<rparr>"

subsection \<open>The orchestrator\<close>

text \<open>
  \<open>RAGPipeline.recommend\<close>. The five steps it calls are taken as they are called, each
  one a function that returns or raises; this covers every exception a step can raise
  in Python, also those that the typed models of the steps above exclude (a
  \<open>TypeError\<close> on a value of an unexpected type, a \<open>KeyboardInterrupt\<close> during a call
  of a service). \<open>recommend_try\<close> is the body of the \<open>try\<close>, \<open>recommend\<close> the method:
  the body under its handler, which returns the empty list.
\<close>

record ('v, 'c) pipeline =
  step_analyze_query :: "string \<Rightarrow> py_exception + query_analysis"
  step_get_embedding :: "string \<Rightarrow> py_exception + 'v"
  step_search :: "'v \<Rightarrow> int \<Rightarrow> py_exception + 'c list"
  step_rerank_and_filter :: "string \<Rightarrow> query_analysis \<Rightarrow> 'c list \<Rightarrow> int \<Rightarrow> py_exception + 'c list"
  step_balance_recommendations :: "'c list \<Rightarrow> query_analysis \<Rightarrow> py_exception + 'c list"

definition recommend_try :: "('v, 'c) pipeline \<Rightarrow> string \<Rightarrow> int \<Rightarrow> py_exception + 'c list" where
  "recommend_try p query n_results =
     py_bind (step_analyze_query p query) (\<lambda>query_analysis.
     py_bind (step_get_embedding p query) (\<lambda>query_embedding.
     py_bind (step_search p query_embedding 20) (\<lambda>candidates.
       if candidates = [] then Inr []
       else
         py_bind (step_rerank_and_filter p query query_analysis candidates n_results) (\<lambda>recommendations.
         py_bind (step_balance_recommendations p recommendations query_analysis) (\<lambda>balanced.
           Inr (py_slice_to balanced n_results))))))"

definition recommend :: "('v, 'c) pipeline \<Rightarrow> string \<Rightarrow> int \<Rightarrow> py_exception + 'c list" where
  "recommend p query n_results =
     except_Exception (recommend_try p query n_results) (\<lambda>e. Inr [])"

text \<open>
  A pipeline for the examples: the analysis falls back to the default, the vector store
  returns three candidates, the generative service of the reranker is down, and the
  embedding step is a parameter.
\<close>

definition example_pipeline ::
  "(string \<Rightarrow> py_exception + real list) \<Rightarrow> (real list, (string, string list) assessment) pipeline" where
  "example_pipeline embedding_step =
     \<lparr>step_analyze_query = (\<lambda>query. Inr fallback_analysis),
      step_get_embedding = embedding_step,
      step_search = (\<lambda>query_embedding k. Inr [java_test, python_test, leadership_test]),
      step_rerank_and_filter = rerank_and_filter (\<lambda>prompt. Inl ServiceError),
      step_balance_recommendations = (\<lambda>recs analysis. Inr (balance_recommendations recs analysis))\<rparr>"

section \<open>Python's \<open>str\<close> and \<open>eval\<close> on the stored test types\<close>

text \<open>
  \<open>_create_metadata\<close> in vector_store.py stores \<open>str(assessment['test_type'])\<close> and
  \<open>search\<close> reads it back with \<open>eval\<close>. Both are builtins of Python; they are modelled
  here on the values the round trip needs.
\<close>

definition backslash :: char where
  "backslash = CHR 0x5C"

definition squote :: char where
  "squote = CHR 0x27"

definition dquote :: char where
  "dquote = CHR 0x22"

definition tab :: char where
  "tab = CHR 0x09"

definition carriage_return :: char where
  "carriage_return = CHR 0x0D"

text \<open>The characters \<open>repr\<close> copies unescaped: the printable ones.\<close>

definition printable :: "char \<Rightarrow> bool" where
  "printable c = (let n = (of_char c :: nat) in (32 \<le> n \<and> n < 127) \<or> (161 \<le> n \<and> n \<noteq> 173))"

definition hex_digit :: "nat \<Rightarrow> char" where
  "hex_digit d = (if d < 10 then char_of (48 + d) else char_of (87 + d))"

definition hex_value :: "char \<Rightarrow> nat option" where
  "hex_value c =
     (let n = (of_char c :: nat)
      in if 48 \<le> n \<and> n \<le> 57 then Some (n - 48)
         else if 97 \<le> n \<and> n \<le> 102 then Some (n - 87)
         else if 65 \<le> n \<and> n \<le> 70 then Some (n - 55)
         else None)"

text \<open>\<open>repr\<close> of a string: single quotes, unless the string holds a single quote and no
  double quote; the quote in use and the backslash are escaped, as are tab, line feed,
  carriage return and (in hexadecimal) every other character that is not printable.\<close>

definition repr_quote :: "string \<Rightarrow> char" where
  "repr_quote s = (if squote \<in> set s \<and> dquote \<notin> set s then dquote else squote)"

definition repr_char :: "char \<Rightarrow> char \<Rightarrow> string" where
  "repr_char q c =
     (if c = q \<or> c = backslash then [backslash, c]
      else if c = tab then [backslash, CHR ''t'']
      else if c = newline then [backslash, CHR ''n'']
      else if c = carriage_return then [backslash, CHR ''r'']
      else if \<not> printable c
        then [backslash, CHR ''x'', hex_digit (of_char c div 16), hex_digit (of_char c mod 16)]
      else [c])"

definition py_repr_str :: "string \<Rightarrow> string" where
  "py_repr_str s = (let q = repr_quote s in q # concat (map (repr_char q) s) @ [q])"

text \<open>\<open>str\<close> of a list of strings.\<close>

definition py_str_list :: "string list \<Rightarrow> string" where
  "py_str_list xs = ''['' @ py_join '', '' (map py_repr_str xs) @ '']''"

text \<open>
  The values of \<open>eval\<close>, and the part of Python the model of \<open>eval\<close> does not hold. The
  evaluator is modelled on three forms of expression: a string literal, a list display of
  string literals written as \<open>str\<close> writes it, and a call of one of four builtins on a
  string literal. A call runs the builtin the stored text names, on the argument the text
  gives: what the builtin then returns or raises is \<open>call_builtin\<close>. What Python's
  evaluator does on any other text is \<open>eval_other\<close>. Both are parameters.
\<close>

datatype pyval = PyNone | PyStr string | PyList "pyval list"

record py_runtime =
  call_builtin :: "string \<Rightarrow> pyval list \<Rightarrow> py_exception + pyval"
  eval_other :: "string \<Rightarrow> py_exception + pyval"

definition prepend :: "char \<Rightarrow> (string \<times> string) option \<Rightarrow> (string \<times> string) option" where
  "prepend c r = (case r of None \<Rightarrow> None | Some (s, rest) \<Rightarrow> Some (c # s, rest))"

text \<open>A string literal after its opening quote \<open>q\<close>: the string it denotes and the text
  after its closing quote.\<close>

fun read_string_body :: "char \<Rightarrow> string \<Rightarrow> (string \<times> string) option" where
  "read_string_body q [] = None"
| "read_string_body q (c # cs) =
     (if c = q then Some ([], cs)
      else if c = backslash then
        (case cs of
           [] \<Rightarrow> None
         | e # cs' \<Rightarrow>
             if e = backslash \<or> e = squote \<or> e = dquote then prepend e (read_string_body q cs')
             else if e = CHR ''t'' then prepend tab (read_string_body q cs')
             else if e = CHR ''n'' then prepend newline (read_string_body q cs')
             else if e = CHR ''r'' then prepend carriage_return (read_string_body q cs')
             else if e = CHR ''x'' then
               (case cs' of
                  h1 # h2 # cs'' \<Rightarrow>
                    (case (hex_value h1, hex_value h2) of
                       (Some a, Some b) \<Rightarrow> prepend (char_of (16 * a + b)) (read_string_body q cs'')
                     | _ \<Rightarrow> None)
                | _ \<Rightarrow> None)
             else None)
      else if printable c then prepend c (read_string_body q cs)
      else None)"

definition read_string :: "string \<Rightarrow> (string \<times> string) option" where
  "read_string source =
     (case source of
        [] \<Rightarrow> None
      | q # cs \<Rightarrow> if q = squote \<or> q = dquote then read_string_body q cs else None)"

text \<open>The items of a list display after its opening bracket, up to the closing one,
  separated as \<open>str\<close> separates them; and the text after the closing bracket.\<close>

function read_items :: "string \<Rightarrow> (string list \<times> string) option" where
  "read_items source =
     (case read_string source of
        None \<Rightarrow> None
      | Some (x, rest) \<Rightarrow>
          (case rest of
             [] \<Rightarrow> None
           | c # rest' \<Rightarrow>
               if c = CHR '']'' then Some ([x], rest')
               else if c = CHR '','' then
                 (case rest' of
                    [] \<Rightarrow> None
                  | sp # rest'' \<Rightarrow>
                      if sp = CHR '' '' then
                        (case read_items rest'' of
                           None \<Rightarrow> None
                         | Some (xs, r) \<Rightarrow> Some (x # xs, r))
                      else None)
               else None))"
  by pat_completeness auto
termination
proof (relation "measure length")
  show "wf (measure length)" by simp
next
  fix source :: string and x2 x rest c rest' sp rest''
  assume a: "read_string source = Some x2" "(x, rest) = x2" "rest = c # rest'" "rest' = sp # rest''"
  have shorter: "length r < length s" if "read_string_body q s = Some (y, r)" for q s y r
    using that
  proof (induction s arbitrary: y r rule: length_induct)
    case (1 s)
    have IH: "length r' \<le> length t"
      if "read_string_body q t = Some (y', r')" "length t < length s" for t y' r'
      using "1.IH" that by (meson less_imp_le_nat)
    have pre: "length r' < length s"
      if "prepend d (read_string_body q t) = Some (y', r')" "length t < length s" for d t y' r'
    proof -
      from that(1) obtain y'' where "read_string_body q t = Some (y'', r')"
        by (auto simp: prepend_def split: option.splits)
      from IH [OF this that(2)] that(2) show ?thesis by simp
    qed
    show ?case
    proof (cases s)
      case Nil
      with "1.prems" show ?thesis by simp
    next
      case (Cons c cs)
      show ?thesis
      proof (cases "c = q")
        case True
        with Cons "1.prems" show ?thesis by simp
      next
        case False
        show ?thesis
        proof (cases "c = backslash")
          case nb: False
          with False Cons "1.prems" have "prepend c (read_string_body q cs) = Some (y, r)"
            by (simp split: if_splits)
          from pre [OF this] Cons show ?thesis by simp
        next
          case cb: True
          show ?thesis
          proof (cases cs)
            case Nil
            with False cb Cons "1.prems" show ?thesis by simp
          next
            case e: (Cons e cs')
            show ?thesis
            proof (cases "e = CHR ''x''")
              case nx: False
              with False cb Cons e "1.prems" obtain d where
                "prepend d (read_string_body q cs') = Some (y, r)"
                by (auto split: if_splits)
              from pre [OF this] Cons e show ?thesis by simp
            next
              case x: True
              with False cb Cons e "1.prems" obtain d h1 h2 cs'' where
                "cs' = h1 # h2 # cs''" "prepend d (read_string_body q cs'') = Some (y, r)"
                by (auto simp: backslash_def squote_def dquote_def
                    split: if_splits list.splits option.splits)
              with pre [OF this(2)] Cons e show ?thesis by simp
            qed
          qed
        qed
      qed
    qed
  qed
  from a have "length rest < length source"
    by (cases source) (auto simp: read_string_def dest!: shorter split: if_splits)
  then show "(rest'', source) \<in> measure length" using a by simp
qed

declare read_items.simps [simp del]

definition builtin_callables :: "string list" where
  "builtin_callables = [''__import__'', ''eval'', ''exec'', ''open'']"

definition read_call :: "py_runtime \<Rightarrow> string \<Rightarrow> py_exception + pyval" where
  "read_call rt source =
     (let callee = takeWhile (\<lambda>c. c \<noteq> CHR ''('') source;
          rest = dropWhile (\<lambda>c. c \<noteq> CHR ''('') source
      in if callee \<in> set builtin_callables
         then (case rest of
                 [] \<Rightarrow> eval_other rt source
               | paren # argument \<Rightarrow>
                   (case read_string argument of
                      Some (x, [c]) \<Rightarrow>
                        if c = CHR '')'' then call_builtin rt callee [PyStr x]
                        else eval_other rt source
                    | _ \<Rightarrow> eval_other rt source))
         else eval_other rt source)"

definition py_eval :: "py_runtime \<Rightarrow> string \<Rightarrow> py_exception + pyval" where
  "py_eval rt source =
     (case source of
        [] \<Rightarrow> eval_other rt source
      | c # cs \<Rightarrow>
          if c = CHR ''['' then
            (if cs = '']'' then Inr (PyList [])
             else (case read_items cs of
                     Some (xs, []) \<Rightarrow> Inr (PyList (map PyStr xs))
                   | _ \<Rightarrow> eval_other rt source))
          else if c = squote \<or> c = dquote then
            (case read_string source of
               Some (x, []) \<Rightarrow> Inr (PyStr x)
             | _ \<Rightarrow> eval_other rt source)
          else read_call rt source)"

section \<open>vector_store.py\<close>

text \<open>
  The payload stored with a vector is a dict from strings to strings. The collection is
  the Chroma backend, library code: it is a record of the two calls \<open>search\<close> makes,
  \<open>count()\<close> and \<open>query(query_embeddings, n_results)\<close>, each of which returns or raises.
  Of the result of a query the code reads \<open>metadatas\<close> and \<open>distances\<close>, one list per
  query embedding, or Python's \<open>None\<close>.
\<close>

type_synonym metadata = "string \<rightharpoonup> string"

record query_result =
  metadatas :: "metadata list list option"
  distances :: "real list list option"

record 'v collection =
  coll_count :: "py_exception + nat"
  coll_query :: "'v list \<Rightarrow> int \<Rightarrow> py_exception + query_result"

text \<open>\<open>_create_metadata\<close>: the payload of a catalog entry. \<open>str\<close> of the duration and of the
  list of test types are the parameters \<open>str_duration\<close> and \<open>str_test_type\<close>.\<close>

definition create_metadata ::
  "('d \<Rightarrow> string) \<Rightarrow> ('t \<Rightarrow> string) \<Rightarrow> ('d, 't) assessment \<Rightarrow> py_exception + metadata" where
  "create_metadata str_duration str_test_type assessment =
     py_bind (getitem (name assessment)) (\<lambda>a_name.
     py_bind (getitem (url assessment)) (\<lambda>a_url.
     py_bind (getitem (description assessment)) (\<lambda>a_description.
     py_bind (getitem (duration assessment)) (\<lambda>a_duration.
     py_bind (getitem (test_type assessment)) (\<lambda>a_test_type.
     py_bind (getitem (adaptive_support assessment)) (\<lambda>a_adaptive_support.
     py_bind (getitem (remote_support assessment)) (\<lambda>a_remote_support.
       Inr [''name'' \<mapsto> a_name,
            ''url'' \<mapsto> a_url,
            ''description'' \<mapsto> a_description,
            ''duration'' \<mapsto> str_duration a_duration,
            ''test_type'' \<mapsto> str_test_type a_test_type,
            ''adaptive_support'' \<mapsto> a_adaptive_support,
            ''remote_support'' \<mapsto> a_remote_support])))))))"

text \<open>The distance of result \<open>i\<close>:
  \<open>results['distances'][0][i] if results['distances'] else 0.0\<close>.\<close>

definition result_distance :: "real list list option \<Rightarrow> nat \<Rightarrow> py_exception + real" where
  "result_distance ds i =
     (case ds of
        None \<Rightarrow> Inr 0
      | Some [] \<Rightarrow> Inr 0
      | Some (d0 # _) \<Rightarrow> if i < length d0 then Inr (d0 ! i) else Inl IndexError)"

text \<open>The dict built for one result; the stored test types are decoded with \<open>eval\<close>.\<close>

definition format_result ::
  "py_runtime \<Rightarrow> real list list option \<Rightarrow> nat \<Rightarrow> metadata
     \<Rightarrow> py_exception + (string, pyval) assessment" where
  "format_result rt ds i metadata =
     py_bind (getitem (metadata ''name'')) (\<lambda>m_name.
     py_bind (getitem (metadata ''url'')) (\<lambda>m_url.
     py_bind (getitem (metadata ''description'')) (\<lambda>m_description.
     py_bind (getitem (metadata ''duration'')) (\<lambda>m_duration.
     py_bind (getitem (metadata ''test_type'')) (\<lambda>m_test_type.
     py_bind (py_eval rt m_test_type) (\<lambda>decoded.
     py_bind (getitem (metadata ''adaptive_support'')) (\<lambda>m_adaptive_support.
     py_bind (getitem (metadata ''remote_support'')) (\<lambda>m_remote_support.
     py_bind (result_distance ds i) (\<lambda>d.
       Inr \<lparr>name = Some m_name, url = Some m_url, description = Some m_description,
            duration = Some m_duration, test_type = Some decoded,
            adaptive_support = Some m_adaptive_support,
            remote_support = Some m_remote_support, distance = Some d\<rparr>)))))))))"

fun format_results ::
  "py_runtime \<Rightarrow> real list list option \<Rightarrow> nat \<Rightarrow> metadata list
     \<Rightarrow> py_exception + (string, pyval) assessment list" where
  "format_results rt ds i [] = Inr []"
| "format_results rt ds i (metadata # rest) =
     py_bind (format_result rt ds i metadata) (\<lambda>a.
     py_bind (format_results rt ds (Suc i) rest) (\<lambda>assessments.
       Inr (a # assessments)))"

text \<open>The body of the \<open>try\<close> of \<open>search\<close>, and \<open>search\<close>: the body under its handler,
  which returns the empty list.\<close>

definition search_try ::
  "py_runtime \<Rightarrow> 'v collection \<Rightarrow> 'v \<Rightarrow> int \<Rightarrow> py_exception + (string, pyval) assessment list" where
  "search_try rt collection query_embedding n_results =
     py_bind (coll_count collection) (\<lambda>cnt.
     py_bind (coll_query collection [query_embedding] (min n_results (int cnt))) (\<lambda>results.
       case metadatas results of
         None \<Rightarrow> Inr []
       | Some [] \<Rightarrow> Inr []
       | Some (first # _) \<Rightarrow>
           (case first of
              [] \<Rightarrow> Inr []
            | _ # _ \<Rightarrow> format_results rt (distances results) 0 first)))"

definition search ::
  "py_runtime \<Rightarrow> 'v collection \<Rightarrow> 'v \<Rightarrow> int \<Rightarrow> py_exception + (string, pyval) assessment list" where
  "search rt collection query_embedding n_results =
     except_Exception (search_try rt collection query_embedding n_results) (\<lambda>e. Inr [])"

subsection \<open>Example collections\<close>

text \<open>
  A collection for the examples: \<open>stored\<close> payloads, of which a query returns the first
  \<open>n_results\<close>, each at distance 0; like Chroma it refuses a request for no results. And
  a collection whose query is interrupted from the keyboard.
\<close>

definition example_collection :: "metadata list \<Rightarrow> 'v collection" where
  "example_collection stored =
     \<lparr>coll_count = Inr (length stored),
      coll_query = (\<lambda>query_embeddings n_results.
         if n_results \<le> 0 then Inl ValueError
         else Inr \<lparr>metadatas = Some [take (nat n_results) stored],
                   distances = Some [map (\<lambda>m. 0) (take (nat n_results) stored)]\<rparr>)\<rparr>"


text \<open>
  Two entries of the fallback catalog of the scraper and the payloads \<open>_create_metadata\<close>
  stores for them; a payload whose stored test types were replaced by a call of \<open>exec\<close>;
  and a runtime for the examples, which knows that call: executing the statement
  \<open>raise SystemExit\<close> raises \<open>SystemExit\<close>. The examples reach no other call and no
  text outside the model.
\<close>

definition java_entry :: "(int, string list) assessment" where
  "java_entry =
     \<lparr>name = Some ''Java Developer Assessment'',
      url = Some ''https://www.shl.com/solutions/products/product-catalog/view/java-programming/'',
      description = Some ''Comprehensive Java programming assessment.'',
      duration = Some 60, test_type = Some [''Knowledge & Skills''],
      adaptive_support = Some ''No'', remote_support = Some ''Yes'', distance = None\<rparr>"

definition sales_entry :: "(int, string list) assessment" where
  "sales_entry =
     \<lparr>name = Some ''Sales Representative Assessment'',
      url = Some ''https://www.shl.com/solutions/products/product-catalog/view/sales-assessment/'',
      description = Some ''Comprehensive assessment for sales roles.'',
      duration = Some 35, test_type = Some [''Personality & Behavior'', ''Cognitive''],
      adaptive_support = Some ''Yes'', remote_support = Some ''Yes'', distance = None\<rparr>"

definition payload_of :: "(int, string list) assessment \<Rightarrow> metadata" where
  "payload_of entry =
     (case create_metadata py_str_int py_str_list entry of
        Inl e \<Rightarrow> Map.empty
      | Inr metadata \<Rightarrow> metadata)"

definition tampered_payload :: metadata where
  "tampered_payload = (payload_of java_entry)(''test_type'' \<mapsto> ''exec('raise SystemExit')'')"

definition example_runtime :: py_runtime where
  "example_runtime =
     \<lparr>call_builtin = (\<lambda>callee arguments.
        if callee = ''exec'' \<and> arguments = [PyStr ''raise SystemExit''] then Inl SystemExit
        else Inl ServiceError),
      eval_other = (\<lambda>source. Inl SyntaxError)\<rparr>"

section \<open>Properties of evaluation.py\<close>

text \<open>
  Claim C9. With four pairwise different urls, the predictions \<open>[url1, url2, url3]\<close>, the
  relevant urls \<open>[url1, url3, url4]\<close> and \<open>k = 2\<close> give recall one third: of the first two
  predictions only \<open>url1\<close> is relevant, and there are three relevant urls.
\<close>

theorem recall_at_2_example:
  assumes "distinct [url1, url2, url3, url4]"
  shows "calculate_recall_at_k [url1, url2, url3] [url1, url3, url4] 2 = Inr (1 / 3)"
  using assms by (auto simp add: calculate_recall_at_k_def py_slice_to_def py_truediv_def numeral_2_eq_2)

theorem recall_at_2_example_witness:
  "distinct [''url1'', ''url2'', ''url3'', ''url4'']
   \<and> calculate_recall_at_k [''url1'', ''url2'', ''url3''] [''url1'', ''url3'', ''url4''] 2 = Inr (1 / 3)"
proof -
  have d: "distinct [''url1'', ''url2'', ''url3'', ''url4'']" by simp
  show ?thesis using d recall_at_2_example [OF d] by simp
qed

text \<open>
  Claim C10. An empty \<open>relevant\<close> list gives \<open>0.0\<close> for every prediction list and every
  \<open>k\<close>, and no input reaches the division with a zero divisor: the function never
  raises \<open>ZeroDivisionError\<close>, it always returns a number.
\<close>

theorem recall_empty_relevant_no_division_by_zero:
  "calculate_recall_at_k predicted [] k = Inr 0
   \<and> (\<exists>recall. calculate_recall_at_k predicted relevant k = Inr recall)"
  by (simp add: calculate_recall_at_k_def py_truediv_def Let_def)

section \<open>Properties of the skill and focus extraction\<close>

lemma py_split_unfold:
  "py_split sep s =
     takeWhile (\<lambda>c. c \<noteq> sep) s
     # (if sep \<in> set s then py_split sep (tl (dropWhile (\<lambda>c. c \<noteq> sep) s)) else [])"
  by (induction s) (auto split: list.splits)

lemma py_split_pieces: "p \<in> set (py_split sep s) \<Longrightarrow> sep \<notin> set p \<and> set p \<subseteq> set s"
proof (induction s arbitrary: p)
  case Nil
  then show ?case by simp
next
  case (Cons c cs)
  show ?case
  proof (cases "c = sep")
    case True
    with Cons show ?thesis by auto
  next
    case False
    obtain piece pieces where sp: "py_split sep cs = piece # pieces"
      by (cases "py_split sep cs") (simp_all add: py_split_unfold [of sep cs])
    from Cons.IH [of piece] sp have piece: "sep \<notin> set piece" "set piece \<subseteq> set cs" by simp_all
    from Cons.prems False sp have "p = c # piece \<or> p \<in> set pieces" by simp
    then show ?thesis
    proof
      assume "p = c # piece"
      with piece False show ?thesis by auto
    next
      assume "p \<in> set pieces"
      with Cons.IH [of p] sp show ?thesis by auto
    qed
  qed
qed

lemma set_dropWhile_subset: "set (dropWhile P xs) \<subseteq> set xs"
  by (auto dest: set_dropWhileD)

lemma py_strip_subset: "set (py_strip t) \<subseteq> set t"
proof -
  have "set (py_strip t) = set (dropWhile py_isspace (rev (dropWhile py_isspace t)))"
    by (simp add: py_strip_def)
  also have "\<dots> \<subseteq> set (rev (dropWhile py_isspace t))" by (rule set_dropWhile_subset)
  also have "\<dots> \<subseteq> set t" using set_dropWhile_subset [of py_isspace t] by simp
  finally show ?thesis .
qed

lemma set_tl_subset: "set (tl xs) \<subseteq> set xs"
  by (cases xs) auto

lemma dropWhile_idem: "dropWhile P (dropWhile P xs) = dropWhile P xs"
  by (induction xs) auto

lemma dropWhile_head_stays: "ys = [] \<or> \<not> P (hd ys) \<Longrightarrow> dropWhile P ys = ys"
  by (cases ys) auto

lemma rev_dropWhile_rev_prefix: "\<exists>zs. xs = rev (dropWhile P (rev xs)) @ zs"
proof -
  have "rev xs = takeWhile P (rev xs) @ dropWhile P (rev xs)" by simp
  then have "rev (rev xs) = rev (takeWhile P (rev xs) @ dropWhile P (rev xs))" by simp
  then have "xs = rev (dropWhile P (rev xs)) @ rev (takeWhile P (rev xs))"
    by (simp only: rev_rev_ident rev_append)
  then show ?thesis ..
qed

lemma py_strip_idem: "py_strip (py_strip t) = py_strip t"
proof -
  let ?d = "dropWhile py_isspace"
  let ?u = "rev (?d (rev (?d t)))"
  obtain zs where zs: "?d t = ?u @ zs" using rev_dropWhile_rev_prefix [of "?d t" py_isspace] by blast
  have "?u = [] \<or> \<not> py_isspace (hd ?u)"
  proof (cases "?u = []")
    case True then show ?thesis by simp
  next
    case False
    with zs have "hd ?u = hd (?d t)" "?d t \<noteq> []" by (metis hd_append2, metis append_is_Nil_conv)
    then show ?thesis using hd_dropWhile [of py_isspace t] by simp
  qed
  then have a: "?d ?u = ?u" by (rule dropWhile_head_stays)
  have "py_strip (py_strip t) = rev (?d (rev (?d ?u)))" by (simp add: py_strip_def)
  also have "\<dots> = rev (?d (rev ?u))" by (simp only: a)
  also have "\<dots> = ?u" by (simp add: dropWhile_idem)
  finally show ?thesis by (simp add: py_strip_def)
qed

lemma py_split_nonempty: "py_split sep s \<noteq> []"
  by (subst py_split_unfold) simp

lemma py_split_length: "1 < length (py_split sep s) \<longleftrightarrow> sep \<in> set s"
  by (subst py_split_unfold) (simp add: py_split_nonempty)

lemma py_split_second:
  "sep \<in> set s \<Longrightarrow>
   py_split sep s ! 1 = takeWhile (\<lambda>c. c \<noteq> sep) (tl (dropWhile (\<lambda>c. c \<noteq> sep) s))"
  by (subst py_split_unfold, simp, subst py_split_unfold, simp)

lemma extend_step:
  "(if sublist keyword line
    then (let parts = py_split CHR '':'' line
          in if length parts > 1
             then acc @ map py_strip (py_split CHR '','' (parts ! 1))
             else acc)
    else acc) = acc @ line_tokens keyword line"
proof (cases "CHR '':'' \<in> set line")
  case True
  then have "1 < length (py_split CHR '':'' line)"
    using py_split_length [of "CHR '':''" line] by simp
  with True show ?thesis
    by (simp add: line_tokens_def Let_def py_split_second [OF True, simplified])
next
  case False
  then have "\<not> 1 < length (py_split CHR '':'' line)"
    using py_split_length [of "CHR '':''" line] by simp
  with False show ?thesis
    by (simp add: line_tokens_def Let_def)
qed

lemma fold_extend: "fold (\<lambda>x acc. acc @ f x) xs acc0 = acc0 @ concat (map f xs)"
  by (induction xs arbitrary: acc0) simp_all

lemma extract_skills_lines:
  "extract_skills analysis = concat (map (line_tokens ''skill'') (py_split newline (py_lower analysis)))"
  unfolding extract_skills_def extend_step by (simp add: fold_extend)

lemma extract_focus_areas_lines:
  "extract_focus_areas analysis = concat (map (line_tokens ''focus'') (py_split newline (py_lower analysis)))"
  unfolding extract_focus_areas_def extend_step by (simp add: fold_extend)

lemma line_tokens_clean:
  assumes "t \<in> set (line_tokens keyword line)"
  shows "py_strip t = t \<and> CHR '','' \<notin> set t \<and> CHR '':'' \<notin> set t \<and> set t \<subseteq> set line"
proof -
  let ?seg = "takeWhile (\<lambda>c. c \<noteq> CHR '':'') (tl (dropWhile (\<lambda>c. c \<noteq> CHR '':'') line))"
  from assms obtain p where p: "p \<in> set (py_split CHR '','' ?seg)" and t: "t = py_strip p"
    by (auto simp: line_tokens_def split: if_splits)
  from py_split_pieces [OF p] have comma: "CHR '','' \<notin> set p" and sub: "set p \<subseteq> set ?seg" by simp_all
  have seg_colon: "CHR '':'' \<notin> set ?seg" by (auto dest: set_takeWhileD)
  have "set ?seg \<subseteq> set (tl (dropWhile (\<lambda>c. c \<noteq> CHR '':'') line))" by (auto dest: set_takeWhileD)
  also have "\<dots> \<subseteq> set (dropWhile (\<lambda>c. c \<noteq> CHR '':'') line)" by (rule set_tl_subset)
  also have "\<dots> \<subseteq> set line" by (rule set_dropWhile_subset)
  finally have seg_line: "set ?seg \<subseteq> set line" .
  from py_strip_subset [of p] t have "set t \<subseteq> set p" by simp
  with comma sub seg_colon seg_line t show ?thesis
    by (auto simp: py_strip_idem)
qed

text \<open>
  Claim C8, as the code has it. Skill and focus extraction lower-case the analysis, scan it
  line by line for the keyword, and from a line that has a colon take the text between
  the first colon and the next one, split it on commas, trim each piece and collect every
  piece in order of appearance, the empty ones included. Every returned token is
  trimmed and holds no comma, colon or line break.
\<close>

theorem extraction_collects_every_trimmed_piece:
  "extract_skills analysis
     = concat (map (line_tokens ''skill'') (py_split newline (py_lower analysis)))
   \<and> extract_focus_areas analysis
     = concat (map (line_tokens ''focus'') (py_split newline (py_lower analysis)))
   \<and> (\<forall>t \<in> set (extract_skills analysis) \<union> set (extract_focus_areas analysis).
        py_strip t = t \<and> CHR '','' \<notin> set t \<and> CHR '':'' \<notin> set t \<and> newline \<notin> set t)"
proof -
  have nl: "newline \<notin> set t"
    if "t \<in> set (line_tokens keyword line)" "line \<in> set (py_split newline s)" for t keyword line s
    using line_tokens_clean [OF that(1)] py_split_pieces [OF that(2)] by auto
  show ?thesis
    by (auto simp: extract_skills_lines extract_focus_areas_lines dest: line_tokens_clean nl)
qed

theorem extraction_collects_every_trimmed_piece_witness:
  "extract_skills (''Skills: Python , SQL'' @ [newline] @ ''Focus: backend'') = [''python'', ''sql'']
   \<and> extract_focus_areas (''Skills: Python , SQL'' @ [newline] @ ''Focus: backend'') = [''backend'']
   \<and> py_strip ''python'' = ''python'' \<and> py_strip ''backend'' = ''backend''"
proof -
  let ?a = "''Skills: Python , SQL'' @ [newline] @ ''Focus: backend''"
  have s: "extract_skills ?a = [''python'', ''sql'']" by code_simp
  have f: "extract_focus_areas ?a = [''backend'']" by code_simp
  from extraction_collects_every_trimmed_piece [of ?a]
  have "\<forall>t \<in> set (extract_skills ?a) \<union> set (extract_focus_areas ?a). py_strip t = t" by blast
  with s f show ?thesis by simp
qed

text \<open>
  The claim as the specification states it fails: a blank piece between two commas, or an
  empty text after the colon, is collected as an empty token.
\<close>

theorem extraction_keeps_empty_tokens:
  "extract_skills ''Skills: python,, java'' = [''python'', [], ''java'']
   \<and> extract_focus_areas ''Focus:'' = [[]]"
  by code_simp

section \<open>Properties of the fallback embedding\<close>

text \<open>On a 32-byte digest the loop doubles the vector three times, appends 128 more
  components and stops: twelve copies of the 32 floats.\<close>

lemma extend_vector_32:
  assumes "length v = 32"
  shows "extend_vector v = Some (concat (replicate 12 v))"
proof -
  let ?v2 = "v @ v"
  let ?v4 = "?v2 @ ?v2"
  let ?v8 = "?v4 @ ?v4"
  have 1: "extend_vector v = extend_vector ?v2"
    using assms by (subst extend_vector.simps) simp
  have 2: "extend_vector ?v2 = extend_vector ?v4"
    using assms by (subst extend_vector.simps) simp
  have 3: "extend_vector ?v4 = extend_vector ?v8"
    using assms by (subst extend_vector.simps) simp
  have 4: "extend_vector ?v8 = extend_vector (?v8 @ ?v4)"
    using assms by (subst extend_vector.simps) simp
  have 5: "extend_vector (?v8 @ ?v4) = Some (?v8 @ ?v4)"
    using assms by (subst extend_vector.simps) simp
  have 6: "concat (replicate 12 v) = ?v8 @ ?v4"
    by (simp add: eval_nat_numeral)
  show ?thesis by (simp only: 1 2 3 4 5 6)
qed

lemma nth_concat_replicate:
  "i < n * length v \<Longrightarrow> concat (replicate n v) ! i = v ! (i mod length v)"
proof (induction n arbitrary: i)
  case 0
  then show ?case by simp
next
  case (Suc n)
  show ?case
  proof (cases "i < length v")
    case True
    then show ?thesis by (simp add: nth_append)
  next
    case False
    with Suc.prems have "i - length v < n * length v" by simp
    from Suc.IH [OF this] False show ?thesis
      by (simp add: nth_append le_mod_geq)
  qed
qed

lemma byte_floats_range: "x \<in> set (byte_floats h) \<Longrightarrow> 0 \<le> x \<and> x < 1"
  by (auto simp: byte_floats_def)

text \<open>
  Claim C2. For every text whose digest has the 32 bytes of SHA-256, the fallback
  embedding returns a vector of length 384 whose components lie in \<open>[0, 1)\<close>; the
  vector is the sequence of the 32 floats \<open>(byte mod 100) / 100\<close>, one for each byte of
  the digest, repeated cyclically and cut at 384: component \<open>i\<close> is
  \<open>(byte mod 100) / 100\<close> for byte \<open>i mod 32\<close> of the digest.
\<close>

theorem simple_embedding_cyclic_384:
  assumes "length (sha256 text) = 32"
  shows "\<exists>v. simple_embedding sha256 text = Some v
           \<and> length v = 384
           \<and> (\<forall>x \<in> set v. 0 \<le> x \<and> x < 1)
           \<and> v = take 384 (concat (replicate 12
                   (map (\<lambda>b. real (unat b mod 100) / 100) (sha256 text))))
           \<and> (\<forall>i < 384. v ! i = real (unat (sha256 text ! (i mod 32)) mod 100) / 100)"
proof -
  let ?fs = "byte_floats (sha256 text)"
  let ?v = "concat (replicate 12 ?fs)"
  have fs: "?fs = map (\<lambda>b. real (unat b mod 100) / 100) (sha256 text)"
    by (simp add: byte_floats_def)
  from assms have len: "length ?fs = 32" by (simp add: byte_floats_def)
  have emb: "simple_embedding sha256 text = Some (take 384 ?v)"
    by (simp add: simple_embedding_def extend_vector_32 [OF len])
  have lv: "length ?v = 384" by (simp add: length_concat len sum_list_replicate)
  have range: "0 \<le> x \<and> x < 1" if "x \<in> set ?v" for x
    using that byte_floats_range [of x "sha256 text"] by auto
  have cyc: "?v ! i = real (unat (sha256 text ! (i mod 32)) mod 100) / 100" if "i < 384" for i
  proof -
    have "?v ! i = ?fs ! (i mod 32)"
      using nth_concat_replicate [of i 12 ?fs] that len by simp
    also have "\<dots> = real (unat (sha256 text ! (i mod 32)) mod 100) / 100"
      using assms by (simp add: byte_floats_def)
    finally show ?thesis .
  qed
  from emb lv range cyc fs show ?thesis by simp
qed

theorem simple_embedding_cyclic_384_witness:
  "length sha256_abc = 32
   \<and> simple_embedding (\<lambda>text. sha256_abc) ''abc''
       = Some (concat (replicate 12
           [86 / 100, 20 / 100, 22 / 100, 91 / 100, 43 / 100, 1 / 100, 7 / 100, 34 / 100,
            65 / 100, 65 / 100, 64 / 100, 22 / 100, 93 / 100, 74 / 100, 34 / 100, 35 / 100,
            76 / 100, 3 / 100, 97 / 100, 63 / 100, 50 / 100, 23 / 100, 22 / 100, 56 / 100,
            80 / 100, 16 / 100, 55 / 100, 97 / 100, 42 / 100, 0 / 100, 21 / 100, 73 / 100]))"
proof -
  let ?fs = "[86 / 100, 20 / 100, 22 / 100, 91 / 100, 43 / 100, 1 / 100, 7 / 100, 34 / 100,
            65 / 100, 65 / 100, 64 / 100, 22 / 100, 93 / 100, 74 / 100, 34 / 100, 35 / 100,
            76 / 100, 3 / 100, 97 / 100, 63 / 100, 50 / 100, 23 / 100, 22 / 100, 56 / 100,
            80 / 100, 16 / 100, 55 / 100, 97 / 100, 42 / 100, 0 / 100, 21 / 100, 73 / 100 :: real]"
  have l: "length ((\<lambda>text. sha256_abc) ''abc'') = 32" by (simp add: sha256_abc_def)
  have m: "map (\<lambda>b. real (unat b mod 100) / 100) sha256_abc = ?fs"
    by (simp add: sha256_abc_def)
  have t: "take 384 (concat (replicate 12 ?fs)) = concat (replicate 12 ?fs)"
    by (simp add: length_concat sum_list_replicate)
  from simple_embedding_cyclic_384 [OF l] obtain v where
    "simple_embedding (\<lambda>text. sha256_abc) ''abc'' = Some v"
    "v = take 384 (concat (replicate 12 (map (\<lambda>b. real (unat b mod 100) / 100) sha256_abc)))"
    by blast
  with m t l show ?thesis by simp
qed

section \<open>Properties of the diversity balancer\<close>

subsection \<open>The dict of recommendations by category\<close>

lemma setdefault_append_keeps:
  assumes "\<And>t rs x. m t = Some rs \<Longrightarrow> x \<in> set rs \<Longrightarrow> Q t x" and "Q t r"
    and "setdefault_append m t r t' = Some rs" and "x \<in> set rs"
  shows "Q t' x"
  using assms by (auto simp: setdefault_append_def split: if_splits option.splits)

lemma fold_setdefault_append_keeps:
  assumes "\<And>t rs x. m t = Some rs \<Longrightarrow> x \<in> set rs \<Longrightarrow> Q t x" and "\<And>t. t \<in> set ts \<Longrightarrow> Q t r"
    and "fold (\<lambda>t m. setdefault_append m t r) ts m t' = Some rs" and "x \<in> set rs"
  shows "Q t' x"
  using assms
proof (induction ts arbitrary: m)
  case Nil
  then show ?case by simp
next
  case (Cons t ts)
  show ?case
  proof (rule Cons.IH [of "setdefault_append m t r"])
    fix t'' rs' x'
    assume a: "setdefault_append m t r t'' = Some rs'" "x' \<in> set rs'"
    show "Q t'' x'"
    proof (rule setdefault_append_keeps [where m = m and r = r, OF _ _ a])
      show "\<And>t rs x. m t = Some rs \<Longrightarrow> x \<in> set rs \<Longrightarrow> Q t x" by (rule Cons.prems(1))
      show "Q t r" using Cons.prems(2) by simp
    qed
  next
    show "\<And>u. u \<in> set ts \<Longrightarrow> Q u r" using Cons.prems(2) by simp
    show "fold (\<lambda>t m. setdefault_append m t r) ts (setdefault_append m t r) t' = Some rs"
      using Cons.prems(3) by simp
    show "x \<in> set rs" by (rule Cons.prems(4))
  qed
qed

lemma fold_group_keeps:
  assumes "\<And>t rs x. m t = Some rs \<Longrightarrow> x \<in> set rs \<Longrightarrow> Q t x"
    and "\<And>r t. r \<in> set recs \<Longrightarrow> t \<in> set (get_test_type r) \<Longrightarrow> Q t r"
    and "fold (\<lambda>r by_type.
             fold (\<lambda>t m. setdefault_append m t r)
                  (get_test_type r) by_type) recs m t' = Some rs"
    and "x \<in> set rs"
  shows "Q t' x"
  using assms
proof (induction recs arbitrary: m)
  case Nil
  then show ?case by simp
next
  case (Cons r recs)
  let ?m = "fold (\<lambda>t m. setdefault_append m t r) (get_test_type r) m"
  show ?case
  proof (rule Cons.IH [of ?m])
    fix t'' rs' x'
    assume a: "?m t'' = Some rs'" "x' \<in> set rs'"
    show "Q t'' x'"
    proof (rule fold_setdefault_append_keeps [where m = m and r = r, OF _ _ a])
      show "\<And>t rs x. m t = Some rs \<Longrightarrow> x \<in> set rs \<Longrightarrow> Q t x" by (rule Cons.prems(1))
      show "\<And>t. t \<in> set (get_test_type r) \<Longrightarrow> Q t r" using Cons.prems(2) by simp
    qed
  next
    show "\<And>r' t. r' \<in> set recs \<Longrightarrow> t \<in> set (get_test_type r') \<Longrightarrow> Q t r'"
      using Cons.prems(2) by simp
    show "fold (\<lambda>r by_type.
             fold (\<lambda>t m. setdefault_append m t r)
                  (get_test_type r) by_type) recs ?m t' = Some rs"
      using Cons.prems(3) by simp
    show "x \<in> set rs" by (rule Cons.prems(4))
  qed
qed

lemma group_by_type_members:
  assumes "group_by_type recs t = Some rs" and "r \<in> set rs"
  shows "r \<in> set recs \<and> (\<exists>ts. test_type r = Some ts \<and> t \<in> set ts)"
proof (rule fold_group_keeps [of Map.empty _ recs t rs r])
  show "\<And>t rs x. Map.empty t = Some rs \<Longrightarrow> x \<in> set rs
        \<Longrightarrow> x \<in> set recs \<and> (\<exists>ts. test_type x = Some ts \<and> t \<in> set ts)" by simp
  show "r \<in> set recs \<and> (\<exists>ts. test_type r = Some ts \<and> t \<in> set ts)"
    if "r \<in> set recs" "t \<in> set (get_test_type r)" for r t
    using that by (cases "test_type r") (simp_all add: get_test_type_def)
  show "fold (\<lambda>r by_type.
             fold (\<lambda>t m. setdefault_append m t r)
                  (get_test_type r) by_type) recs Map.empty t = Some rs"
    using assms(1) by (simp add: group_by_type_def)
  show "r \<in> set rs" by (rule assms(2))
qed

subsection \<open>The loop over the requested categories\<close>

lemma first_unseen_Some:
  "first_unseen rs seen = Some r \<Longrightarrow> r \<in> set rs \<and> url r \<notin> seen"
  by (induction rs) (auto split: if_splits)

text \<open>What the loop adds to \<open>balanced\<close>: recommendations found under a requested category,
  with pairwise different url keys none of which was in \<open>seen\<close>; \<open>seen\<close> grows by
  exactly those keys.\<close>

lemma pick_per_type_adds:
  "\<exists>picks. pick_per_type ts by_type (balanced, seen) = (balanced @ picks, seen \<union> url ` set picks)
     \<and> distinct (map url picks) \<and> url ` set picks \<inter> seen = {}
     \<and> (\<forall>r \<in> set picks. \<exists>t \<in> set ts. \<exists>rs. by_type t = Some rs \<and> r \<in> set rs)"
proof (induction ts arbitrary: balanced seen)
  case Nil
  show ?case by (rule exI [of _ "[]"]) simp
next
  case (Cons t ts)
  show ?case
  proof (cases "by_type t")
    case None
    with Cons.IH [of balanced seen] show ?thesis by auto
  next
    case (Some rs)
    show ?thesis
    proof (cases "first_unseen rs seen")
      case None
      with Some Cons.IH [of balanced seen] show ?thesis by auto
    next
      case (Some r)
      from first_unseen_Some [OF Some] have r: "r \<in> set rs" "url r \<notin> seen" by simp_all
      from Cons.IH [of "balanced @ [r]" "insert (url r) seen"]
      obtain picks where p:
        "pick_per_type ts by_type (balanced @ [r], insert (url r) seen)
           = ((balanced @ [r]) @ picks, insert (url r) seen \<union> url ` set picks)"
        "distinct (map url picks)" "url ` set picks \<inter> insert (url r) seen = {}"
        "\<forall>r \<in> set picks. \<exists>t \<in> set ts. \<exists>rs. by_type t = Some rs \<and> r \<in> set rs"
        by blast
      show ?thesis
      proof (rule exI [of _ "r # picks"], intro conjI)
        show "pick_per_type (t # ts) by_type (balanced, seen)
                = (balanced @ r # picks, seen \<union> url ` set (r # picks))"
          using p(1) \<open>by_type t = Some rs\<close> Some by simp
        show "distinct (map url (r # picks))" using p(2,3) by auto
        show "url ` set (r # picks) \<inter> seen = {}" using p(3) r(2) by auto
        show "\<forall>x \<in> set (r # picks). \<exists>t \<in> set (t # ts). \<exists>rs. by_type t = Some rs \<and> x \<in> set rs"
          using p(4) r(1) \<open>by_type t = Some rs\<close> by auto
      qed
    qed
  qed
qed

subsection \<open>The final loop\<close>

lemma append_unseen_adds:
  "\<exists>tail. append_unseen rs (balanced, seen) = (balanced @ tail, seen \<union> url ` set tail)
     \<and> subseq tail rs \<and> distinct (map url tail) \<and> url ` set tail \<inter> seen = {}
     \<and> url ` set rs \<subseteq> seen \<union> url ` set tail"
proof (induction rs arbitrary: balanced seen)
  case Nil
  show ?case by (rule exI [of _ "[]"]) simp
next
  case (Cons r rs)
  show ?case
  proof (cases "url r \<in> seen")
    case True
    from Cons.IH [of balanced seen] obtain tail where t:
      "append_unseen rs (balanced, seen) = (balanced @ tail, seen \<union> url ` set tail)"
      "subseq tail rs" "distinct (map url tail)" "url ` set tail \<inter> seen = {}"
      "url ` set rs \<subseteq> seen \<union> url ` set tail" by blast
    show ?thesis
    proof (rule exI [of _ tail], intro conjI)
      show "append_unseen (r # rs) (balanced, seen) = (balanced @ tail, seen \<union> url ` set tail)"
        using True t(1) by simp
      show "subseq tail (r # rs)" using t(2) by (rule list_emb_Cons)
      show "distinct (map url tail)" by (rule t(3))
      show "url ` set tail \<inter> seen = {}" by (rule t(4))
      show "url ` set (r # rs) \<subseteq> seen \<union> url ` set tail" using True t(5) by auto
    qed
  next
    case False
    from Cons.IH [of "balanced @ [r]" "insert (url r) seen"] obtain tail where t:
      "append_unseen rs (balanced @ [r], insert (url r) seen)
         = ((balanced @ [r]) @ tail, insert (url r) seen \<union> url ` set tail)"
      "subseq tail rs" "distinct (map url tail)" "url ` set tail \<inter> insert (url r) seen = {}"
      "url ` set rs \<subseteq> insert (url r) seen \<union> url ` set tail" by blast
    show ?thesis
    proof (rule exI [of _ "r # tail"], intro conjI)
      show "append_unseen (r # rs) (balanced, seen)
              = (balanced @ r # tail, seen \<union> url ` set (r # tail))"
        using False t(1) by simp
      show "subseq (r # tail) (r # rs)" using t(2) by simp
      show "distinct (map url (r # tail))" using t(3,4) by auto
      show "url ` set (r # tail) \<inter> seen = {}" using False t(4) by auto
      show "url ` set (r # rs) \<subseteq> seen \<union> url ` set (r # tail)" using t(5) by auto
    qed
  qed
qed

subsection \<open>The balanced list\<close>

lemma diversity_picks_spec:
  "pick_per_type req_types (group_by_type recs) ([], {})
     = (diversity_picks recs req_types, url ` set (diversity_picks recs req_types))
   \<and> distinct (map url (diversity_picks recs req_types))
   \<and> (\<forall>r \<in> set (diversity_picks recs req_types).
         r \<in> set recs \<and> (\<exists>ts. test_type r = Some ts \<and> (\<exists>t \<in> set req_types. t \<in> set ts)))"
proof -
  from pick_per_type_adds [of req_types "group_by_type recs" "[]" "{}"]
  obtain picks where p:
    "pick_per_type req_types (group_by_type recs) ([], {}) = (picks, url ` set picks)"
    "distinct (map url picks)"
    "\<forall>r \<in> set picks. \<exists>t \<in> set req_types. \<exists>rs. group_by_type recs t = Some rs \<and> r \<in> set rs"
    by auto
  have d: "diversity_picks recs req_types = picks" by (simp add: diversity_picks_def p(1))
  have "r \<in> set recs \<and> (\<exists>ts. test_type r = Some ts \<and> (\<exists>t \<in> set req_types. t \<in> set ts))"
    if "r \<in> set picks" for r
  proof -
    from p(3) that obtain t rs where
      "t \<in> set req_types" "group_by_type recs t = Some rs" "r \<in> set rs" by blast
    with group_by_type_members [of recs t rs r] show ?thesis by blast
  qed
  with p(1,2) d show ?thesis by simp
qed

lemma balance_recommendations_split:
  assumes "1 < length (test_types analysis)"
  shows "\<exists>tail. balance_recommendations recs analysis
                   = diversity_picks recs (test_types analysis) @ tail
           \<and> subseq tail recs
           \<and> distinct (map url (diversity_picks recs (test_types analysis) @ tail))
           \<and> url ` set recs \<subseteq> url ` set (diversity_picks recs (test_types analysis) @ tail)"
proof -
  let ?picks = "diversity_picks recs (test_types analysis)"
  from diversity_picks_spec [of "test_types analysis" recs]
  have p: "pick_per_type (test_types analysis) (group_by_type recs) ([], {}) = (?picks, url ` set ?picks)"
    and dp: "distinct (map url ?picks)" by simp_all
  from append_unseen_adds [of recs ?picks "url ` set ?picks"]
  obtain tail where t:
    "append_unseen recs (?picks, url ` set ?picks) = (?picks @ tail, url ` set ?picks \<union> url ` set tail)"
    "subseq tail recs" "distinct (map url tail)" "url ` set tail \<inter> url ` set ?picks = {}"
    "url ` set recs \<subseteq> url ` set ?picks \<union> url ` set tail" by blast
  show ?thesis
  proof (rule exI [of _ tail], intro conjI)
    show "balance_recommendations recs analysis = ?picks @ tail"
      using assms by (simp add: balance_recommendations_def Let_def p t(1))
    show "subseq tail recs" by (rule t(2))
    show "distinct (map url (?picks @ tail))" using dp t(3,4) by auto
    show "url ` set recs \<subseteq> url ` set (?picks @ tail)" using t(5) by auto
  qed
qed

lemma balance_recommendations_subset:
  "set (balance_recommendations recs analysis) \<subseteq> set recs"
proof (cases "1 < length (test_types analysis)")
  case False
  then show ?thesis by (simp add: balance_recommendations_def Let_def)
next
  case True
  from balance_recommendations_split [OF True, of recs] obtain tail where
    "balance_recommendations recs analysis = diversity_picks recs (test_types analysis) @ tail"
    "subseq tail recs" by blast
  with diversity_picks_spec [of "test_types analysis" recs] list_emb_set [of _ tail recs]
  show ?thesis by (auto simp: subset_iff)
qed

lemma balance_recommendations_mset:
  assumes "distinct (map url recs)"
  shows "mset (balance_recommendations recs analysis) = mset recs"
proof (cases "1 < length (test_types analysis)")
  case False
  then show ?thesis by (simp add: balance_recommendations_def Let_def)
next
  case True
  let ?out = "balance_recommendations recs analysis"
  from balance_recommendations_split [OF True, of recs] obtain tail where
    out: "?out = diversity_picks recs (test_types analysis) @ tail"
    and d: "distinct (map url (diversity_picks recs (test_types analysis) @ tail))"
    and all: "url ` set recs \<subseteq> url ` set (diversity_picks recs (test_types analysis) @ tail)"
    by blast
  from assms have inj: "inj_on url (set recs)" and dr: "distinct recs"
    by (simp_all add: distinct_map)
  from d have "distinct (diversity_picks recs (test_types analysis) @ tail)"
    using distinct_map [of url "diversity_picks recs (test_types analysis) @ tail"] by blast
  with out have dout: "distinct ?out" by simp
  have sub: "set ?out \<subseteq> set recs" by (rule balance_recommendations_subset)
  have "set recs \<subseteq> set ?out"
  proof
    fix r assume r: "r \<in> set recs"
    with all out obtain r' where r': "r' \<in> set ?out" "url r' = url r" by force
    with sub have "r' \<in> set recs" by blast
    with inj r r'(2) have "r' = r" by (auto dest: inj_onD)
    with r'(1) show "r \<in> set ?out" by simp
  qed
  with sub have "set ?out = set recs" by blast
  with dout dr show ?thesis by (simp add: set_eq_iff_mset_eq_distinct)
qed

text \<open>
  Claim C4, as the code has it. Balancing never adds an item: every item of the output is
  an item of the input. When the url keys of the input are pairwise different (a missing
  url counting as one key), the output is a permutation of the input: nothing is
  dropped and multiplicities are preserved.
\<close>

theorem balance_is_permutation_for_distinct_urls:
  "set (balance_recommendations recs analysis) \<subseteq> set recs
   \<and> (distinct (map url recs) \<longrightarrow> mset (balance_recommendations recs analysis) = mset recs)"
  using balance_recommendations_subset [of recs analysis]
    balance_recommendations_mset [of recs analysis] by blast

theorem balance_is_permutation_for_distinct_urls_witness:
  "distinct (map url [python_test, leadership_test, java_test])
   \<and> mset (balance_recommendations [python_test, leadership_test, java_test] fallback_analysis)
       = mset [python_test, leadership_test, java_test]"
proof -
  have d: "distinct (map url [python_test, leadership_test, java_test])"
    by (simp add: python_test_def leadership_test_def java_test_def example_candidate_def)
  with balance_is_permutation_for_distinct_urls [of "[python_test, leadership_test, java_test]" fallback_analysis]
  show ?thesis by blast
qed

text \<open>
  The claim as the specification states it fails: a ranked list that holds the same
  candidate twice (the reranker repeats a candidate whose index the model repeats) loses
  the second copy, since its url is already in \<open>seen\<close>.
\<close>

theorem balance_drops_repeated_url:
  "balance_recommendations [java_test, java_test, leadership_test] fallback_analysis
     = [java_test, leadership_test]
   \<and> mset [java_test, leadership_test] \<noteq> mset [java_test, java_test, leadership_test]"
proof -
  have "balance_recommendations [java_test, java_test, leadership_test] fallback_analysis
          = [java_test, leadership_test]"
    by code_simp
  moreover have "size (mset [java_test, leadership_test])
                   \<noteq> size (mset [java_test, java_test, leadership_test])" by simp
  ultimately show ?thesis by metis
qed

text \<open>
  Claim C7, as the code has it. With two or more requested categories the balanced list is
  the diversity picks followed by a tail. The items are keyed by url: no two items of
  the output share a url key. Every diversity pick has a \<open>test_type\<close> field that holds a
  requested category, so an item without the field is never a pick; and the tail keeps
  the original rank order. An item without a \<open>url\<close> field is keyed by Python's \<open>None\<close>
  and is picked like any other.
\<close>

theorem balance_picks_carry_a_requested_category:
  assumes "1 < length (test_types analysis)"
  shows "\<exists>tail. balance_recommendations recs analysis
                   = diversity_picks recs (test_types analysis) @ tail
           \<and> subseq tail recs
           \<and> distinct (map url (balance_recommendations recs analysis))
           \<and> (\<forall>r \<in> set (diversity_picks recs (test_types analysis)).
                 \<exists>ts. test_type r = Some ts \<and> (\<exists>t \<in> set (test_types analysis). t \<in> set ts))"
proof -
  from balance_recommendations_split [OF assms, of recs] obtain tail where t:
    "balance_recommendations recs analysis = diversity_picks recs (test_types analysis) @ tail"
    "subseq tail recs"
    "distinct (map url (diversity_picks recs (test_types analysis) @ tail))" by blast
  with diversity_picks_spec [of "test_types analysis" recs] show ?thesis by auto
qed

theorem balance_picks_carry_a_requested_category_witness:
  "1 < length (test_types fallback_analysis)
   \<and> balance_recommendations [java_test, python_test, leadership_test] fallback_analysis
       = [java_test, leadership_test, python_test]
   \<and> diversity_picks [java_test, python_test, leadership_test] (test_types fallback_analysis)
       = [java_test, leadership_test]
   \<and> distinct (map url (balance_recommendations [java_test, python_test, leadership_test] fallback_analysis))"
proof -
  have l: "1 < length (test_types fallback_analysis)" by (simp add: fallback_analysis_def)
  have b: "balance_recommendations [java_test, python_test, leadership_test] fallback_analysis
             = [java_test, leadership_test, python_test]" by code_simp
  have p: "diversity_picks [java_test, python_test, leadership_test] (test_types fallback_analysis)
             = [java_test, leadership_test]" by code_simp
  from balance_picks_carry_a_requested_category [OF l, of "[java_test, python_test, leadership_test]"]
  have "distinct (map url (balance_recommendations [java_test, python_test, leadership_test] fallback_analysis))"
    by blast
  with l b p show ?thesis by blast
qed

text \<open>
  The claim as the specification states it fails: a candidate without a \<open>url\<close> field
  that carries a requested category is chosen as the diversity pick of that category,
  ahead of a better ranked candidate.
\<close>

theorem balance_picks_item_without_url:
  "url unlisted_test = None
   \<and> diversity_picks [java_test, python_test, unlisted_test] (test_types fallback_analysis)
       = [java_test, unlisted_test]
   \<and> balance_recommendations [java_test, python_test, unlisted_test] fallback_analysis
       = [java_test, unlisted_test, python_test]"
  by code_simp

section \<open>Properties of the reranker\<close>

lemma py_bind_Inl [simp]: "py_bind (Inl e) f = Inl e"
  by (simp add: py_bind_def)

lemma py_bind_Inr [simp]: "py_bind (Inr x) f = f x"
  by (simp add: py_bind_def)

lemma py_bind_raises:
  "py_bind m f = Inl e \<longleftrightarrow> m = Inl e \<or> (\<exists>x. m = Inr x \<and> f x = Inl e)"
  by (cases m) simp_all

lemma except_Exception_Inl [simp]:
  "except_Exception (Inl e) handler = (if is_Exception e then handler e else Inl e)"
  by (simp add: except_Exception_def)

lemma except_Exception_Inr [simp]: "except_Exception (Inr x) handler = Inr x"
  by (simp add: except_Exception_def)

text \<open>The summary raises nothing but \<open>KeyError\<close>, the parse nothing but \<open>ValueError\<close>.\<close>

lemma summary_lines_raises: "summary_lines i cs = Inl e \<Longrightarrow> e = KeyError"
  by (induction cs arbitrary: i) (auto simp: py_bind_raises getitem_def split: option.splits)

lemma rankings_of_raises: "rankings_of nums = Inl e \<Longrightarrow> e = ValueError"
  by (induction nums) (auto simp: py_bind_raises py_int_def split: if_splits)

lemma findall_digits_replicate:
  "is_digit d \<Longrightarrow> findall_digits run (replicate (Suc k) d) = [run @ replicate (Suc k) d]"
proof (induction k arbitrary: run)
  case 0
  then show ?case by simp
next
  case (Suc k)
  from Suc.IH [OF Suc.prems, of "run @ [d]"] Suc.prems show ?case
    by (simp add: replicate_app_Cons_same)
qed

text \<open>
  Claim C3, as the code has it. Whenever the summary cannot be built, the generative call
  raises an exception of class \<open>Exception\<close>, or the parse of the ranking raises (a run
  of digits too long to convert), \<open>_rerank_and_filter\<close> returns the candidate list it was
  given, unchanged. An exception of the generative call that is not of class
  \<open>Exception\<close> is not caught: the method raises it.
\<close>

theorem rerank_failure_returns_candidates:
  "(summary_lines 0 (py_slice_to candidates 15) = Inl e
      \<longrightarrow> rerank_and_filter generate_text query analysis candidates n_results = Inr candidates)
   \<and> (summary_lines 0 (py_slice_to candidates 15) = Inr lines
        \<and> generate_text (rerank_prompt n_results query (py_join [newline] lines)) = Inl e
      \<longrightarrow> rerank_and_filter generate_text query analysis candidates n_results
            = (if is_Exception e then Inr candidates else Inl e))
   \<and> (summary_lines 0 (py_slice_to candidates 15) = Inr lines
        \<and> generate_text (rerank_prompt n_results query (py_join [newline] lines)) = Inr response
        \<and> parse_rankings (case response of None \<Rightarrow> [] | Some t \<Rightarrow> t) = Inl e
      \<longrightarrow> rerank_and_filter generate_text query analysis candidates n_results = Inr candidates)"
proof (intro conjI impI)
  assume "summary_lines 0 (py_slice_to candidates 15) = Inl e"
  with summary_lines_raises [of 0 "py_slice_to candidates 15" e]
  show "rerank_and_filter generate_text query analysis candidates n_results = Inr candidates"
    by (simp add: rerank_and_filter_def rerank_try_def)
next
  assume "summary_lines 0 (py_slice_to candidates 15) = Inr lines
        \<and> generate_text (rerank_prompt n_results query (py_join [newline] lines)) = Inl e"
  then show "rerank_and_filter generate_text query analysis candidates n_results
               = (if is_Exception e then Inr candidates else Inl e)"
    by (simp add: rerank_and_filter_def rerank_try_def)
next
  assume a: "summary_lines 0 (py_slice_to candidates 15) = Inr lines
        \<and> generate_text (rerank_prompt n_results query (py_join [newline] lines)) = Inr response
        \<and> parse_rankings (case response of None \<Rightarrow> [] | Some t \<Rightarrow> t) = Inl e"
  then have "e = ValueError"
    using rankings_of_raises [of "findall_digits [] (case response of None \<Rightarrow> [] | Some t \<Rightarrow> t)" e]
    by (simp add: parse_rankings_def)
  with a show "rerank_and_filter generate_text query analysis candidates n_results = Inr candidates"
    by (simp add: rerank_and_filter_def rerank_try_def)
qed

theorem rerank_failure_returns_candidates_witness:
  "summary_lines 0 (py_slice_to [java_test\<lparr>name := None\<rparr>, python_test] 15) = Inl KeyError
   \<and> rerank_and_filter (\<lambda>prompt. Inr (Some ''2, 1'')) ''java developer'' fallback_analysis
         [java_test\<lparr>name := None\<rparr>, python_test] 10
       = Inr [java_test\<lparr>name := None\<rparr>, python_test]
   \<and> rerank_and_filter (\<lambda>prompt. Inl ServiceError) ''java developer'' fallback_analysis
         [java_test, python_test, leadership_test] 10
       = Inr [java_test, python_test, leadership_test]
   \<and> parse_rankings (replicate 4301 CHR ''7'') = Inl ValueError
   \<and> rerank_and_filter (\<lambda>prompt. Inr (Some (replicate 4301 CHR ''7''))) ''java developer''
         fallback_analysis [java_test, python_test, leadership_test] 10
       = Inr [java_test, python_test, leadership_test]"
proof -
  let ?cs = "[java_test, python_test, leadership_test]"
  let ?bad = "[java_test\<lparr>name := None\<rparr>, python_test]"
  have s0: "summary_lines 0 (py_slice_to ?bad 15) = Inl KeyError"
    by (simp add: py_slice_to_def java_test_def python_test_def example_candidate_def getitem_def)
  obtain lines where s: "summary_lines 0 (py_slice_to ?cs 15) = Inr lines"
    by (simp add: py_slice_to_def java_test_def python_test_def leadership_test_def
        example_candidate_def getitem_def)
  have "replicate 4301 CHR ''7'' = replicate (Suc 4300) CHR ''7''" by simp
  then have f: "findall_digits [] (replicate 4301 CHR ''7'') = [replicate 4301 CHR ''7'']"
    using findall_digits_replicate [of "CHR ''7''" "[]" 4300] by (simp add: is_digit_def)
  have p: "parse_rankings (replicate 4301 CHR ''7'') = Inl ValueError"
    by (simp only: parse_rankings_def f) (simp add: py_int_def int_max_str_digits_def)
  from rerank_failure_returns_candidates
    [of ?bad KeyError "\<lambda>prompt. Inr (Some ''2, 1'')" "''java developer''" fallback_analysis 10] s0
  have 1: "rerank_and_filter (\<lambda>prompt. Inr (Some ''2, 1'')) ''java developer'' fallback_analysis
             ?bad 10 = Inr ?bad" by blast
  from rerank_failure_returns_candidates
    [of ?cs ServiceError "\<lambda>prompt. Inl ServiceError" "''java developer''" fallback_analysis 10 lines] s
  have 2: "rerank_and_filter (\<lambda>prompt. Inl ServiceError) ''java developer'' fallback_analysis
             ?cs 10 = Inr ?cs" by simp
  from rerank_failure_returns_candidates
    [of ?cs ValueError "\<lambda>prompt. Inr (Some (replicate 4301 CHR ''7''))" "''java developer''"
        fallback_analysis 10 lines "Some (replicate 4301 CHR ''7'')"] s p
  have 3: "rerank_and_filter (\<lambda>prompt. Inr (Some (replicate 4301 CHR ''7''))) ''java developer''
             fallback_analysis ?cs 10 = Inr ?cs" by simp
  from s0 1 2 p 3 show ?thesis by simp
qed

text \<open>
  The claim as the specification states it fails: an interrupt from the keyboard while
  the generative service is called is not of class \<open>Exception\<close>, and the method raises it.
\<close>

theorem rerank_raises_keyboard_interrupt:
  "rerank_and_filter (\<lambda>prompt. Inl KeyboardInterrupt) ''java developer'' fallback_analysis
     [java_test, python_test, leadership_test] 10 = Inl KeyboardInterrupt"
  by (simp add: rerank_and_filter_def rerank_try_def py_slice_to_def java_test_def
      python_test_def leadership_test_def example_candidate_def getitem_def)

section \<open>Properties of the orchestrator\<close>

text \<open>The body of the \<open>try\<close> raises exactly when one of the five steps raises at the
  point where it is called.\<close>

lemma recommend_try_raises_iff:
  "recommend_try p query n_results = Inl e \<longleftrightarrow>
     step_analyze_query p query = Inl e
     \<or> (\<exists>a. step_analyze_query p query = Inr a \<and>
          (step_get_embedding p query = Inl e
           \<or> (\<exists>v. step_get_embedding p query = Inr v \<and>
                (step_search p v 20 = Inl e
                 \<or> (\<exists>cs. step_search p v 20 = Inr cs \<and> cs \<noteq> [] \<and>
                      (step_rerank_and_filter p query a cs n_results = Inl e
                       \<or> (\<exists>rs. step_rerank_and_filter p query a cs n_results = Inr rs \<and>
                            step_balance_recommendations p rs a = Inl e)))))))"
  by (auto simp: recommend_try_def py_bind_raises)

text \<open>
  Claim C1, as the code has it. For every query and every \<open>n\<close>: whenever one of the five
  steps of the pipeline (the query analysis, the embedding, the search with its fixed 20,
  the rerank, the balance) raises an exception where \<open>recommend\<close> calls it, \<open>recommend\<close>
  returns the empty list if the exception is of class \<open>Exception\<close>, and raises that
  exception to its caller if it is not.
\<close>

theorem recommend_catches_Exception_of_every_step:
  "step_analyze_query p query = Inl e
   \<or> (\<exists>a. step_analyze_query p query = Inr a \<and>
        (step_get_embedding p query = Inl e
         \<or> (\<exists>v. step_get_embedding p query = Inr v \<and>
              (step_search p v 20 = Inl e
               \<or> (\<exists>cs. step_search p v 20 = Inr cs \<and> cs \<noteq> [] \<and>
                    (step_rerank_and_filter p query a cs n_results = Inl e
                     \<or> (\<exists>rs. step_rerank_and_filter p query a cs n_results = Inr rs \<and>
                          step_balance_recommendations p rs a = Inl e)))))))
   \<longrightarrow> recommend p query n_results = (if is_Exception e then Inr [] else Inl e)"
proof
  assume "step_analyze_query p query = Inl e
   \<or> (\<exists>a. step_analyze_query p query = Inr a \<and>
        (step_get_embedding p query = Inl e
         \<or> (\<exists>v. step_get_embedding p query = Inr v \<and>
              (step_search p v 20 = Inl e
               \<or> (\<exists>cs. step_search p v 20 = Inr cs \<and> cs \<noteq> [] \<and>
                    (step_rerank_and_filter p query a cs n_results = Inl e
                     \<or> (\<exists>rs. step_rerank_and_filter p query a cs n_results = Inr rs \<and>
                          step_balance_recommendations p rs a = Inl e)))))))"
  then have "recommend_try p query n_results = Inl e"
    by (simp only: recommend_try_raises_iff)
  then show "recommend p query n_results = (if is_Exception e then Inr [] else Inl e)"
    by (simp add: recommend_def)
qed

theorem recommend_catches_Exception_of_every_step_witness:
  "step_get_embedding (example_pipeline (\<lambda>query. Inl ServiceError)) ''java developer''
       = Inl ServiceError
   \<and> recommend (example_pipeline (\<lambda>query. Inl ServiceError)) ''java developer'' 10 = Inr []
   \<and> step_balance_recommendations
         ((example_pipeline (\<lambda>query. Inr []))
            \<lparr>step_balance_recommendations := (\<lambda>recs analysis. Inl TypeError)\<rparr>)
         [java_test, python_test, leadership_test] fallback_analysis = Inl TypeError
   \<and> recommend ((example_pipeline (\<lambda>query. Inr []))
         \<lparr>step_balance_recommendations := (\<lambda>recs analysis. Inl TypeError)\<rparr>) ''java developer'' 10
       = Inr []"
proof -
  let ?p = "example_pipeline (\<lambda>query. Inl ServiceError)"
  let ?q = "(example_pipeline (\<lambda>query. Inr []))
         \<lparr>step_balance_recommendations := (\<lambda>recs analysis. Inl TypeError)\<rparr>"
  let ?cs = "[java_test, python_test, leadership_test]"
  have a: "step_analyze_query ?p ''java developer'' = Inr fallback_analysis"
    "step_get_embedding ?p ''java developer'' = Inl ServiceError"
    by (simp_all add: example_pipeline_def)
  from recommend_catches_Exception_of_every_step [of ?p "''java developer''" ServiceError 10] a
  have 1: "recommend ?p ''java developer'' 10 = Inr []" by simp
  have r: "rerank_and_filter (\<lambda>prompt. Inl ServiceError) ''java developer'' fallback_analysis ?cs 10
             = Inr ?cs"
    by (simp add: rerank_and_filter_def rerank_try_def py_slice_to_def java_test_def
        python_test_def leadership_test_def example_candidate_def getitem_def)
  have b: "step_analyze_query ?q ''java developer'' = Inr fallback_analysis"
    "step_get_embedding ?q ''java developer'' = Inr []"
    "step_search ?q [] 20 = Inr ?cs"
    "step_rerank_and_filter ?q ''java developer'' fallback_analysis ?cs 10 = Inr ?cs"
    "step_balance_recommendations ?q ?cs fallback_analysis = Inl TypeError"
    by (simp_all add: example_pipeline_def r)
  from recommend_catches_Exception_of_every_step [of ?q "''java developer''" TypeError 10] b
  have 2: "recommend ?q ''java developer'' 10 = Inr []" by auto
  from a(2) 1 b(5) 2 show ?thesis by simp
qed

text \<open>
  The claim as the specification states it fails: an interrupt from the keyboard while
  the embedding service is called is not of class \<open>Exception\<close>; the handler of
  \<open>recommend\<close> does not catch it and the caller receives it.
\<close>

theorem recommend_raises_keyboard_interrupt:
  "recommend (example_pipeline (\<lambda>query. Inl KeyboardInterrupt)) ''java developer'' 10
     = Inl KeyboardInterrupt"
  by (simp add: recommend_def recommend_try_def example_pipeline_def)

section \<open>Properties of the stored test types\<close>

lemma hex_value_hex_digit: "d < 16 \<Longrightarrow> hex_value (hex_digit d) = Some d"
  by (auto simp: hex_value_def hex_digit_def Let_def)

lemma char_of_hex_digits:
  "char_of (16 * ((of_char c :: nat) div 16) + of_char c mod 16) = c"
  by simp

lemma read_escaped_hex:
  "read_string_body q (backslash # CHR ''x'' # hex_digit (of_char c div 16)
        # hex_digit (of_char c mod 16) # text)
     = (if backslash = q then Some ([], CHR ''x'' # hex_digit (of_char c div 16)
          # hex_digit (of_char c mod 16) # text)
        else prepend c (read_string_body q text))"
proof -
  have lt: "(of_char c :: nat) div 16 < 16" "(of_char c :: nat) mod 16 < 16"
    using nat_of_char_less_256 [of c] by (simp_all add: div_less_iff_less_mult)
  have x: "CHR ''x'' \<noteq> backslash" "CHR ''x'' \<noteq> squote" "CHR ''x'' \<noteq> dquote"
    "CHR ''x'' \<noteq> CHR ''t''" "CHR ''x'' \<noteq> CHR ''n''" "CHR ''x'' \<noteq> CHR ''r''"
    by (simp_all add: backslash_def squote_def dquote_def)
  show ?thesis
    by (simp add: x hex_value_hex_digit [OF lt(1)] hex_value_hex_digit [OF lt(2)]
        char_of_hex_digits del: of_nat_add of_nat_mult)
qed

lemma read_escaped_quote:
  "backslash \<noteq> q \<Longrightarrow> e = backslash \<or> e = squote \<or> e = dquote \<Longrightarrow>
   read_string_body q (backslash # e # text) = prepend e (read_string_body q text)"
  by simp

lemma read_escaped_tab:
  "backslash \<noteq> q \<Longrightarrow>
   read_string_body q (backslash # CHR ''t'' # text) = prepend tab (read_string_body q text)"
  by (simp add: backslash_def squote_def dquote_def)

lemma read_escaped_newline:
  "backslash \<noteq> q \<Longrightarrow>
   read_string_body q (backslash # CHR ''n'' # text) = prepend newline (read_string_body q text)"
  by (simp add: backslash_def squote_def dquote_def)

lemma read_escaped_return:
  "backslash \<noteq> q \<Longrightarrow>
   read_string_body q (backslash # CHR ''r'' # text)
     = prepend carriage_return (read_string_body q text)"
  by (simp add: backslash_def squote_def dquote_def)

lemma read_raw:
  "c \<noteq> q \<Longrightarrow> c \<noteq> backslash \<Longrightarrow> printable c \<Longrightarrow>
   read_string_body q (c # text) = prepend c (read_string_body q text)"
  by simp

text \<open>Reading back one character as \<open>repr\<close> wrote it.\<close>

lemma read_repr_char:
  assumes q: "q = squote \<or> q = dquote"
  shows "read_string_body q (repr_char q c @ text) = prepend c (read_string_body q text)"
proof -
  have bq: "backslash \<noteq> q" using q by (auto simp: backslash_def squote_def dquote_def)
  consider (quote) "c = q \<or> c = backslash"
    | (tab) "c \<noteq> q" "c \<noteq> backslash" "c = tab"
    | (newline) "c \<noteq> q" "c \<noteq> backslash" "c \<noteq> tab" "c = newline"
    | (return) "c \<noteq> q" "c \<noteq> backslash" "c \<noteq> tab" "c \<noteq> newline" "c = carriage_return"
    | (hex) "c \<noteq> q" "c \<noteq> backslash" "c \<noteq> tab" "c \<noteq> newline" "c \<noteq> carriage_return"
        "\<not> printable c"
    | (raw) "c \<noteq> q" "c \<noteq> backslash" "c \<noteq> tab" "c \<noteq> newline" "c \<noteq> carriage_return"
        "printable c"
    by blast
  then show ?thesis
  proof cases
    case quote
    then have r: "repr_char q c = [backslash, c]" by (simp add: repr_char_def)
    from quote q have "c = backslash \<or> c = squote \<or> c = dquote" by blast
    from read_escaped_quote [OF bq this] r show ?thesis by simp
  next
    case tab
    then have "repr_char q c = [backslash, CHR ''t'']" by (simp add: repr_char_def)
    with read_escaped_tab [OF bq] tab(3) show ?thesis by simp
  next
    case newline
    then have "repr_char q c = [backslash, CHR ''n'']" by (simp add: repr_char_def)
    with read_escaped_newline [OF bq] newline(4) show ?thesis by simp
  next
    case return
    then have "repr_char q c = [backslash, CHR ''r'']" by (simp add: repr_char_def)
    with read_escaped_return [OF bq] return(5) show ?thesis by simp
  next
    case hex
    then have "repr_char q c
        = [backslash, CHR ''x'', hex_digit (of_char c div 16), hex_digit (of_char c mod 16)]"
      by (simp add: repr_char_def)
    with read_escaped_hex [of q c "text"] bq show ?thesis by simp
  next
    case raw
    then have "repr_char q c = [c]" by (simp add: repr_char_def)
    with read_raw [OF raw(1,2,6)] show ?thesis by simp
  qed
qed

text \<open>Reading back what \<open>repr\<close> wrote between the quotes.\<close>

lemma read_string_body_repr:
  assumes q: "q = squote \<or> q = dquote"
  shows "read_string_body q (concat (map (repr_char q) s) @ q # rest) = Some (s, rest)"
proof (induction s)
  case Nil
  show ?case by simp
next
  case (Cons c s)
  have "read_string_body q (concat (map (repr_char q) (c # s)) @ q # rest)
          = read_string_body q (repr_char q c @ (concat (map (repr_char q) s) @ q # rest))"
    by simp
  also have "\<dots> = prepend c (read_string_body q (concat (map (repr_char q) s) @ q # rest))"
    by (rule read_repr_char [OF q])
  also have "\<dots> = Some (c # s, rest)" by (simp add: Cons.IH prepend_def)
  finally show ?case .
qed

lemma repr_quote_cases: "repr_quote s = squote \<or> repr_quote s = dquote"
  by (simp add: repr_quote_def)

lemma read_string_repr: "read_string (py_repr_str s @ rest) = Some (s, rest)"
  using read_string_body_repr [OF repr_quote_cases, of s s rest] repr_quote_cases [of s]
  by (auto simp: read_string_def py_repr_str_def Let_def)

lemma py_repr_str_not_bracket: "\<exists>q body. py_repr_str s = q # body \<and> q \<noteq> CHR '']''"
  using repr_quote_cases [of s] by (auto simp: py_repr_str_def Let_def squote_def dquote_def)

lemma read_items_repr:
  "read_items (py_join '', '' (map py_repr_str (x # xs)) @ CHR '']'' # rest) = Some (x # xs, rest)"
proof (induction xs arbitrary: x)
  case Nil
  show ?case by (subst read_items.simps) (simp add: read_string_repr)
next
  case (Cons y ys)
  have "py_join '', '' (map py_repr_str (x # y # ys)) @ CHR '']'' # rest
          = py_repr_str x @ (CHR '','' # CHR '' ''
              # (py_join '', '' (map py_repr_str (y # ys)) @ CHR '']'' # rest))"
    by simp
  with Cons.IH [of y] show ?case
    by (subst read_items.simps) (simp add: read_string_repr)
qed

lemma py_eval_py_str_list: "py_eval rt (py_str_list xs) = Inr (PyList (map PyStr xs))"
proof (cases xs)
  case Nil
  then show ?thesis by (simp add: py_eval_def py_str_list_def)
next
  case (Cons x ys)
  from py_repr_str_not_bracket [of x] obtain q body where
    q: "py_repr_str x = q # body" "q \<noteq> CHR '']''" by blast
  have "py_join '', '' (map py_repr_str (x # ys)) @ '']'' \<noteq> '']''"
    using q(1,2) by (cases ys) simp_all
  with read_items_repr [of x ys "[]"] Cons show ?thesis
    by (simp add: py_eval_def py_str_list_def)
qed

section \<open>Properties of the vector store\<close>










section \<open>The stored test types on retrieval\<close>

text \<open>The payload \<open>_create_metadata\<close> builds holds every field of the entry, the
  duration and the test types as text.\<close>

lemma create_metadata_fields:
  assumes "create_metadata str_duration str_test_type entry = Inr payload"
  shows "\<exists>categories. test_type entry = Some categories
           \<and> payload ''test_type'' = Some (str_test_type categories)
           \<and> payload ''name'' = name entry \<and> name entry \<noteq> None
           \<and> payload ''url'' = url entry \<and> url entry \<noteq> None
           \<and> payload ''description'' \<noteq> None \<and> payload ''duration'' \<noteq> None
           \<and> payload ''adaptive_support'' \<noteq> None \<and> payload ''remote_support'' \<noteq> None"
proof -
  from assms obtain a_name a_url a_description a_duration a_test_type a_adaptive a_remote where
    f: "name entry = Some a_name" "url entry = Some a_url" "test_type entry = Some a_test_type"
    and m: "payload = [''name'' \<mapsto> a_name, ''url'' \<mapsto> a_url, ''description'' \<mapsto> a_description,
          ''duration'' \<mapsto> str_duration a_duration, ''test_type'' \<mapsto> str_test_type a_test_type,
          ''adaptive_support'' \<mapsto> a_adaptive, ''remote_support'' \<mapsto> a_remote]"
    by (auto simp: create_metadata_def py_bind_raises py_bind_def getitem_def
        split: option.splits sum.splits)
  from m f show ?thesis by simp
qed

text \<open>One stored payload, read back by \<open>search\<close>: the decoded test types are the list
  of the entry, and name and url are those of the entry.\<close>

lemma format_result_round_trip:
  assumes "create_metadata str_duration py_str_list entry = Inr payload"
    and "result_distance ds i = Inr d"
  shows "\<exists>categories found.
           test_type entry = Some categories
           \<and> format_result rt ds i payload = Inr found
           \<and> test_type found = Some (PyList (map PyStr categories))
           \<and> name found = name entry \<and> url found = url entry"
proof -
  from create_metadata_fields [OF assms(1)] obtain categories where
    c: "test_type entry = Some categories" "payload ''test_type'' = Some (py_str_list categories)"
    and n: "payload ''name'' = name entry" "name entry \<noteq> None"
    and u: "payload ''url'' = url entry" "url entry \<noteq> None"
    and r: "payload ''description'' \<noteq> None" "payload ''duration'' \<noteq> None"
      "payload ''adaptive_support'' \<noteq> None" "payload ''remote_support'' \<noteq> None"
    by blast
  from n u r obtain m_name m_url m_description m_duration m_adaptive m_remote where
    s: "payload ''name'' = Some m_name" "payload ''url'' = Some m_url"
      "payload ''description'' = Some m_description" "payload ''duration'' = Some m_duration"
      "payload ''adaptive_support'' = Some m_adaptive" "payload ''remote_support'' = Some m_remote"
    by auto
  have "format_result rt ds i payload =
          Inr \<lparr>name = Some m_name, url = Some m_url, description = Some m_description,
               duration = Some m_duration, test_type = Some (PyList (map PyStr categories)),
               adaptive_support = Some m_adaptive, remote_support = Some m_remote,
               distance = Some d\<rparr>"
    by (simp add: format_result_def s c(2) getitem_def py_eval_py_str_list assms(2))
  with c(1) n(1) u(1) s(1,2) show ?thesis by simp
qed

lemma format_results_round_trip:
  assumes "list_all2 (\<lambda>entry payload. create_metadata str_duration py_str_list entry = Inr payload)
             entries payloads"
    and "\<forall>j < length payloads. \<exists>d. result_distance ds (i + j) = Inr d"
  shows "\<exists>found. format_results rt ds i payloads = Inr found
           \<and> list_all2 (\<lambda>entry c. \<exists>categories. test_type entry = Some categories
                  \<and> test_type c = Some (PyList (map PyStr categories))
                  \<and> name c = name entry \<and> url c = url entry) entries found"
  using assms
proof (induction entries payloads arbitrary: i rule: list_all2_induct)
  case Nil
  show ?case by simp
next
  case (Cons entry entries payload payloads)
  from Cons.prems obtain d where d: "result_distance ds i = Inr d" by fastforce
  from format_result_round_trip [OF Cons.hyps(1) d, of rt] obtain categories c where
    c: "test_type entry = Some categories" "format_result rt ds i payload = Inr c"
      "test_type c = Some (PyList (map PyStr categories))" "name c = name entry" "url c = url entry"
    by blast
  have "\<forall>j < length payloads. \<exists>d. result_distance ds (Suc i + j) = Inr d"
  proof (intro allI impI)
    fix j assume "j < length payloads"
    then have "Suc j < length (payload # payloads)" by simp
    with Cons.prems have "\<exists>d. result_distance ds (i + Suc j) = Inr d" by blast
    then show "\<exists>d. result_distance ds (Suc i + j) = Inr d" by simp
  qed
  from Cons.IH [OF this] obtain rest where
    rest: "format_results rt ds (Suc i) payloads = Inr rest"
      "list_all2 (\<lambda>entry c. \<exists>categories. test_type entry = Some categories
                  \<and> test_type c = Some (PyList (map PyStr categories))
                  \<and> name c = name entry \<and> url c = url entry) entries rest"
    by blast
  from c rest show ?case by simp
qed

text \<open>
  Claim C6, as the code has it. For every list of assessments whose payloads
  \<open>_create_metadata\<close> builds (each \<open>test_type\<close> a list of category strings written with
  \<open>str\<close>), when the backend answers the request of \<open>search\<close> with these payloads, \<open>search\<close>
  returns one result for each assessment, in order, and the \<open>test_type\<close> of the result,
  decoded with \<open>eval\<close>, is the identical list of strings. The decoder is Python's
  evaluator: the statement is about the texts the encoder writes.
\<close>

theorem stored_test_type_round_trip:
  assumes "list_all2 (\<lambda>entry payload. create_metadata str_duration py_str_list entry = Inr payload)
             entries payloads"
    and "coll_count collection = Inr cnt"
    and "coll_query collection [query_embedding] (min n_results (int cnt)) = Inr results"
    and "metadatas results = Some (payloads # others)"
    and "\<forall>j < length payloads. \<exists>d. result_distance (distances results) j = Inr d"
  shows "\<exists>found. search rt collection query_embedding n_results = Inr found
           \<and> list_all2 (\<lambda>entry c. \<exists>categories. test_type entry = Some categories
                  \<and> test_type c = Some (PyList (map PyStr categories))
                  \<and> name c = name entry \<and> url c = url entry) entries found"
proof -
  from format_results_round_trip [OF assms(1), of "distances results" 0 rt] assms(5)
  obtain found where
    f: "format_results rt (distances results) 0 payloads = Inr found"
      "list_all2 (\<lambda>entry c. \<exists>categories. test_type entry = Some categories
                  \<and> test_type c = Some (PyList (map PyStr categories))
                  \<and> name c = name entry \<and> url c = url entry) entries found"
    by auto
  have "search_try rt collection query_embedding n_results = Inr found"
  proof (cases payloads)
    case Nil
    with f(1) assms(2,3,4) show ?thesis by (simp add: search_try_def)
  next
    case (Cons p ps)
    with f(1) assms(2,3,4) show ?thesis by (simp add: search_try_def)
  qed
  with f(2) show ?thesis by (auto simp: search_def)
qed

theorem stored_test_type_round_trip_witness:
  "create_metadata py_str_int py_str_list java_entry = Inr (payload_of java_entry)
   \<and> create_metadata py_str_int py_str_list sales_entry = Inr (payload_of sales_entry)
   \<and> payload_of sales_entry ''test_type'' = Some ''['Personality & Behavior', 'Cognitive']''
   \<and> (\<exists>found. search example_runtime
                 (example_collection [payload_of java_entry, payload_of sales_entry])
                 ([] :: real list) 20 = Inr found
         \<and> map test_type found
             = [Some (PyList [PyStr ''Knowledge & Skills'']),
                Some (PyList [PyStr ''Personality & Behavior'', PyStr ''Cognitive''])]
         \<and> map url found = [url java_entry, url sales_entry])"
proof -
  let ?c = "example_collection [payload_of java_entry, payload_of sales_entry] :: real list collection"
  let ?r = "\<lparr>metadatas = Some [[payload_of java_entry, payload_of sales_entry]],
             distances = Some [[0, 0]]\<rparr>"
  have j: "create_metadata py_str_int py_str_list java_entry = Inr (payload_of java_entry)"
    by (simp add: payload_of_def create_metadata_def java_entry_def getitem_def)
  have s: "create_metadata py_str_int py_str_list sales_entry = Inr (payload_of sales_entry)"
    by (simp add: payload_of_def create_metadata_def sales_entry_def getitem_def)
  have l: "list_all2 (\<lambda>entry payload. create_metadata py_str_int py_str_list entry = Inr payload)
             [java_entry, sales_entry] [payload_of java_entry, payload_of sales_entry]"
    using j s by simp
  have c: "coll_count ?c = Inr 2" by (simp add: example_collection_def)
  have q: "coll_query ?c [[]] (min 20 (int 2)) = Inr ?r" by (simp add: example_collection_def)
  have m: "metadatas ?r = Some ([payload_of java_entry, payload_of sales_entry] # [])" by simp
  have d: "\<forall>j < length [payload_of java_entry, payload_of sales_entry].
             \<exists>d. result_distance (distances ?r) j = Inr d"
    by (simp add: result_distance_def)
  have t: "py_str_list [''Personality & Behavior'', ''Cognitive'']
             = ''['Personality & Behavior', 'Cognitive']''"
    by code_simp
  have tj: "test_type java_entry = Some [''Knowledge & Skills'']"
    and ts: "test_type sales_entry = Some [''Personality & Behavior'', ''Cognitive'']"
    by (simp_all add: java_entry_def sales_entry_def)
  from create_metadata_fields [OF s] obtain categories where
    "test_type sales_entry = Some categories"
    "payload_of sales_entry ''test_type'' = Some (py_str_list categories)"
    by blast
  with ts t have p: "payload_of sales_entry ''test_type''
                       = Some ''['Personality & Behavior', 'Cognitive']''"
    by simp
  from stored_test_type_round_trip [OF l c q m d, of example_runtime] obtain found where
    f: "search example_runtime ?c [] 20 = Inr found"
      "list_all2 (\<lambda>entry c. \<exists>categories. test_type entry = Some categories
                  \<and> test_type c = Some (PyList (map PyStr categories))
                  \<and> name c = name entry \<and> url c = url entry) [java_entry, sales_entry] found"
    by blast
  from f(2) obtain x y where xy: "found = [x, y]"
    and x: "\<exists>categories. test_type java_entry = Some categories
              \<and> test_type x = Some (PyList (map PyStr categories)) \<and> url x = url java_entry"
    and y: "\<exists>categories. test_type sales_entry = Some categories
              \<and> test_type y = Some (PyList (map PyStr categories)) \<and> url y = url sales_entry"
    by (auto simp: list_all2_Cons1)
  from x tj have x': "test_type x = Some (PyList [PyStr ''Knowledge & Skills''])"
    "url x = url java_entry" by auto
  from y ts have y': "test_type y = Some (PyList [PyStr ''Personality & Behavior'', PyStr ''Cognitive''])"
    "url y = url sales_entry" by auto
  from xy x' y' have r: "map test_type found
             = [Some (PyList [PyStr ''Knowledge & Skills'']),
                Some (PyList [PyStr ''Personality & Behavior'', PyStr ''Cognitive''])]"
    "map url found = [url java_entry, url sales_entry]"
    by simp_all
  have ex: "\<exists>found. search example_runtime ?c [] 20 = Inr found
         \<and> map test_type found
             = [Some (PyList [PyStr ''Knowledge & Skills'']),
                Some (PyList [PyStr ''Personality & Behavior'', PyStr ''Cognitive''])]
         \<and> map url found = [url java_entry, url sales_entry]"
  proof (intro exI conjI)
    show "search example_runtime ?c [] 20 = Inr found" by (rule f(1))
    show "map test_type found
             = [Some (PyList [PyStr ''Knowledge & Skills'']),
                Some (PyList [PyStr ''Personality & Behavior'', PyStr ''Cognitive''])]"
      by (rule r(1))
    show "map url found = [url java_entry, url sales_entry]" by (rule r(2))
  qed
  show ?thesis
  proof (intro conjI)
    show "create_metadata py_str_int py_str_list java_entry = Inr (payload_of java_entry)"
      by (rule j)
    show "create_metadata py_str_int py_str_list sales_entry = Inr (payload_of sales_entry)"
      by (rule s)
    show "payload_of sales_entry ''test_type'' = Some ''['Personality & Behavior', 'Cognitive']''"
      by (rule p)
    show "\<exists>found. search example_runtime
                 (example_collection [payload_of java_entry, payload_of sales_entry])
                 ([] :: real list) 20 = Inr found
         \<and> map test_type found
             = [Some (PyList [PyStr ''Knowledge & Skills'']),
                Some (PyList [PyStr ''Personality & Behavior'', PyStr ''Cognitive''])]
         \<and> map url found = [url java_entry, url sales_entry]"
      by (rule ex)
  qed
qed

text \<open>
  The claim as the specification states it fails: the decoder is the evaluator. A stored
  payload whose test types are the text of a call of \<open>exec\<close> makes \<open>search\<close> run the
  statement the text holds; here the statement raises \<open>SystemExit\<close>, which leaves
  \<open>search\<close> through its handler.
\<close>

theorem search_runs_stored_code:
  "tampered_payload ''test_type'' = Some ''exec('raise SystemExit')''
   \<and> py_eval example_runtime ''exec('raise SystemExit')''
       = call_builtin example_runtime ''exec'' [PyStr ''raise SystemExit'']
   \<and> search example_runtime (example_collection [tampered_payload]) ([] :: real list) 20
       = Inl SystemExit"
proof -
  have t: "tampered_payload ''test_type'' = Some ''exec('raise SystemExit')''"
    by (simp add: tampered_payload_def)
  have e: "py_eval example_runtime ''exec('raise SystemExit')''
             = call_builtin example_runtime ''exec'' [PyStr ''raise SystemExit'']"
    by code_simp
  have c: "call_builtin example_runtime ''exec'' [PyStr ''raise SystemExit''] = Inl SystemExit"
    by (simp add: example_runtime_def)
  have "search example_runtime (example_collection [tampered_payload]) ([] :: real list) 20
          = Inl SystemExit"
    by (simp add: search_def search_try_def example_collection_def tampered_payload_def
        payload_of_def create_metadata_def java_entry_def getitem_def format_result_def e c)
  with t e show ?thesis by simp
qed

end
